theory Spec2Isabelle
  imports Complex_Main "HOL-Library.List_Lexorder" "HOL-Library.Multiset"
begin

section \<open>Python values and the library primitives the program calls\<close>

text \<open>
  A Python \<open>str\<close> is a sequence of Unicode code points; it is modelled as a list of
  natural numbers, so that \<open>length\<close> counts code points as Python's \<open>len\<close> does and
  the order of \<open>HOL-Library.List_Lexorder\<close> is the order \<open>sorted\<close> uses on strings.
\<close>

type_synonym ustr = "nat list"

definition ascii :: "string \<Rightarrow> ustr" where
  "ascii s = map of_char s"

text \<open>
  The values the program handles: \<open>None\<close>, a \<open>str\<close>, or any other object (an
  \<open>int\<close>, a \<open>float\<close>, a \<open>datetime\<close>, ...), kept abstract in the type \<open>'o\<close>.
\<close>

datatype 'o pyval = PyNone | PyStr ustr | PyObj 'o

text \<open>
  The result of \<open>float(s)\<close>: a finite double (by its exact value), an infinity (the flag
  is its sign bit) or NaN. \<open>float_eq\<close> is Python's \<open>==\<close> on floats.
\<close>

datatype pyfloat = FNum rat | FInf bool | FNaN

fun float_eq :: "pyfloat \<Rightarrow> pyfloat \<Rightarrow> bool" where
  "float_eq (FNum a) (FNum b) = (a = b)"
| "float_eq (FInf s) (FInf t) = (s = t)"
| "float_eq _ _ = False"

text \<open>
  The builtins and library functions of CPython, \<open>unicodedata\<close>, \<open>re\<close> and pandas that
  the program calls and that are not code of this repository. Every definition below
  takes them as the parameter \<open>L\<close>, and every theorem holds for all of them:
  \<^item> \<open>str_lower\<close>, \<open>str_upper\<close>: \<open>str.lower\<close>, \<open>str.upper\<close>;
  \<^item> \<open>chr_isspace\<close>: the characters \<open>str.strip()\<close> removes;
  \<^item> \<open>nfc\<close>: \<open>unicodedata.normalize("NFC", _)\<close>;
  \<^item> \<open>re_ieq p c\<close>: the literal pattern character \<open>p\<close> matches the subject character
    \<open>c\<close> under \<open>re.IGNORECASE\<close>;
  \<^item> \<open>float_of\<close>: \<open>float(s)\<close> on a string, \<open>None\<close> when it raises \<open>ValueError\<close>;
  \<^item> \<open>obj_str\<close>: \<open>str(x)\<close> of an object that is neither \<open>None\<close> nor a \<open>str\<close>;
  \<^item> \<open>obj_isna\<close>: \<open>pd.isna(x)\<close> of such an object (true of a float NaN, of \<open>pd.NaT\<close>).
\<close>

record 'o pylib =
  str_lower :: "ustr \<Rightarrow> ustr"
  str_upper :: "ustr \<Rightarrow> ustr"
  chr_isspace :: "nat \<Rightarrow> bool"
  nfc :: "ustr \<Rightarrow> ustr"
  re_ieq :: "nat \<Rightarrow> nat \<Rightarrow> bool"
  float_of :: "ustr \<Rightarrow> pyfloat option"
  obj_str :: "'o \<Rightarrow> ustr"
  obj_isna :: "'o \<Rightarrow> bool"

definition py_strip :: "'o pylib \<Rightarrow> ustr \<Rightarrow> ustr" where
  "py_strip L s = rev (dropWhile (chr_isspace L) (rev (dropWhile (chr_isspace L) s)))"

definition str_of :: "'o pylib \<Rightarrow> 'o pyval \<Rightarrow> ustr" where
  "str_of L v = (case v of PyNone \<Rightarrow> ascii ''None'' | PyStr s \<Rightarrow> s | PyObj x \<Rightarrow> obj_str L x)"

definition isna :: "'o pylib \<Rightarrow> 'o pyval \<Rightarrow> bool" where
  "isna L v = (case v of PyNone \<Rightarrow> True | PyStr s \<Rightarrow> False | PyObj x \<Rightarrow> obj_isna L x)"

definition endswith :: "ustr \<Rightarrow> ustr \<Rightarrow> bool" where
  "endswith s suf = (length suf \<le> length s \<and> drop (length s - length suf) s = suf)"

text \<open>
  \<open>s.replace(old, new)\<close> for a non-empty \<open>old\<close>: the non-overlapping occurrences,
  left to right. The counter \<open>k\<close> is the number of characters of a matched occurrence
  still to be skipped.
\<close>

fun replace_from :: "ustr \<Rightarrow> ustr \<Rightarrow> nat \<Rightarrow> ustr \<Rightarrow> ustr" where
  "replace_from old new k [] = []"
| "replace_from old new (Suc k) (c # cs) = replace_from old new k cs"
| "replace_from old new 0 (c # cs) =
     (if take (length old) (c # cs) = old
      then new @ replace_from old new (length old - 1) cs
      else c # replace_from old new 0 cs)"

definition py_replace :: "ustr \<Rightarrow> ustr \<Rightarrow> ustr \<Rightarrow> ustr" where
  "py_replace s old new = replace_from old new 0 s"

text \<open>
  \<open>re.compile(re.escape(cand), re.IGNORECASE).search(s)\<close>: the escaped pattern is the
  literal \<open>cand\<close>, matched character by character at some position of \<open>s\<close>.
\<close>

definition re_match_here :: "'o pylib \<Rightarrow> ustr \<Rightarrow> ustr \<Rightarrow> bool" where
  "re_match_here L pat s =
     (length pat \<le> length s \<and> list_all2 (re_ieq L) pat (take (length pat) s))"

fun re_search :: "'o pylib \<Rightarrow> ustr \<Rightarrow> ustr \<Rightarrow> bool" where
  "re_search L pat [] = re_match_here L pat []"
| "re_search L pat (c # cs) = (re_match_here L pat (c # cs) \<or> re_search L pat cs)"

text \<open>
  A Python \<open>dict\<close>: its items in insertion order, every key once. \<open>d[k] = v\<close>
  replaces the value of a key that is present and appends the item otherwise;
  \<open>dict_get\<close> is the lookup, \<open>None\<close> for a key that is absent.
\<close>

type_synonym ('k, 'v) pydict = "('k \<times> 'v) list"

fun dict_set :: "('k, 'v) pydict \<Rightarrow> 'k \<Rightarrow> 'v \<Rightarrow> ('k, 'v) pydict" where
  "dict_set [] k v = [(k, v)]"
| "dict_set (p # ps) k v = (if fst p = k then (k, v) # ps else p # dict_set ps k v)"

definition dict_get :: "('k, 'v) pydict \<Rightarrow> 'k \<Rightarrow> 'v option" where
  "dict_get d k = map_of d k"

section \<open>The utility functions of app.py\<close>

definition normalize_text :: "'o pylib \<Rightarrow> 'o pyval \<Rightarrow> ustr" where
  "normalize_text L s = (case s of PyNone \<Rightarrow> [] | _ \<Rightarrow> nfc L (str_of L s))"

text \<open>
  \<open>find_col\<close>. The dictionary \<open>lower_cols\<close> is built by a comprehension over the
  columns, so for two columns with the same lowercased label the later one stays.
  The column labels are strings (the script passes \<open>df.columns\<close> after
  \<open>str(c).strip()\<close>), so \<open>str(c)\<close> is \<open>c\<close>.
\<close>

definition lower_cols :: "'o pylib \<Rightarrow> ustr list \<Rightarrow> (ustr, ustr) pydict" where
  "lower_cols L df_cols = foldl (\<lambda>d c. dict_set d (str_lower L c) c) [] df_cols"

fun find_exact :: "'o pylib \<Rightarrow> ustr list \<Rightarrow> ustr list \<Rightarrow> ustr option" where
  "find_exact L df_cols [] = None"
| "find_exact L df_cols (cand # rest) =
     (case dict_get (lower_cols L df_cols) (str_lower L cand) of
        Some c \<Rightarrow> Some c
      | None \<Rightarrow> find_exact L df_cols rest)"

fun find_partial :: "'o pylib \<Rightarrow> ustr list \<Rightarrow> ustr list \<Rightarrow> ustr option" where
  "find_partial L df_cols [] = None"
| "find_partial L df_cols (cand # rest) =
     (case find (re_search L cand) df_cols of
        Some c \<Rightarrow> Some c
      | None \<Rightarrow> find_partial L df_cols rest)"

definition find_col :: "'o pylib \<Rightarrow> ustr list \<Rightarrow> ustr list \<Rightarrow> ustr option" where
  "find_col L df_cols candidates =
     (case find_exact L df_cols candidates of
        Some c \<Rightarrow> Some c
      | None \<Rightarrow> find_partial L df_cols candidates)"

definition is_one :: "'o pylib \<Rightarrow> 'o pyval \<Rightarrow> bool" where
  "is_one L x =
     (if isna L x then False
      else (case float_of L (py_strip L (str_of L x)) of
              None \<Rightarrow> False
            | Some f \<Rightarrow> float_eq f (FNum 1)))"

section \<open>The fixed settings\<close>

text \<open>
  The constants of the script. The Korean literals are written by their code points:
  the candidates are \<open>U+BC18\<close> (class), \<open>U+D559 U+AE09\<close> (class room),
  \<open>U+BC88 U+D638\<close> (number), \<open>U+BC88\<close>, \<open>U+C774 U+B984\<close> (name) and
  \<open>U+C131 U+BA85\<close> (full name).
\<close>

definition DATA_DIR :: ustr where
  "DATA_DIR = ascii ''./data''"

definition SHEET_NAME :: "int + ustr" where
  "SHEET_NAME = Inl 0"

definition USECOLS_RANGE :: ustr where
  "USECOLS_RANGE = ascii ''A:AG''"

definition TARGET_SUM_ROW :: nat where
  "TARGET_SUM_ROW = 174"

definition CANDIDATE_CLASS_COLS :: "ustr list" where
  "CANDIDATE_CLASS_COLS = [[0xBC18], [0xD559, 0xAE09], ascii ''Class'']"

definition CANDIDATE_NO_COLS :: "ustr list" where
  "CANDIDATE_NO_COLS = [[0xBC88, 0xD638], [0xBC88], ascii ''No'']"

definition CANDIDATE_NAME_COLS :: "ustr list" where
  "CANDIDATE_NAME_COLS = [[0xC774, 0xB984], [0xC131, 0xBA85], ascii ''Name'']"

definition PREFERRED_FONTS :: "ustr list" where
  "PREFERRED_FONTS = [ascii ''Apple SD Gothic Neo'', ascii ''Malgun Gothic'']"

section \<open>Data frames\<close>

text \<open>
  A pandas \<open>DataFrame\<close>: the column labels and the rows, each row holding one cell per
  column. The row index plays no part in the script (it is dropped before display).
\<close>

record ('l, 'c) frame =
  df_columns :: "'l list"
  df_rows :: "'c list list"

definition col_cells :: "'l list \<Rightarrow> 'c list \<Rightarrow> 'l \<Rightarrow> 'c list" where
  "col_cells cols row label = map snd (filter (\<lambda>p. fst p = label) (zip cols row))"

text \<open>
  \<open>df[labels]\<close> with a list of labels: for each label in turn, every column that
  carries it.
\<close>

definition select_columns :: "('l, 'c) frame \<Rightarrow> 'l list \<Rightarrow> ('l, 'c) frame" where
  "select_columns df labels =
     \<lparr>df_columns = concat (map (\<lambda>l. filter (\<lambda>c. c = l) (df_columns df)) labels),
      df_rows = map (\<lambda>r. concat (map (col_cells (df_columns df) r) labels)) (df_rows df)\<rparr>"

text \<open>\<open>df.head(n)\<close>.\<close>

definition head_rows :: "nat \<Rightarrow> ('l, 'c) frame \<Rightarrow> ('l, 'c) frame" where
  "head_rows n df = \<lparr>df_columns = df_columns df, df_rows = take n (df_rows df)\<rparr>"

section \<open>Reading row 174 with openpyxl\<close>

datatype exn = Raised ustr | IndexError | KeyError | ValueError | TypeError

text \<open>
  A worksheet as \<open>load_workbook(path, data_only=True)\<close> gives it: the value of the cell
  at a row and a column (both from 1), \<open>None\<close> where the sheet has no cell. A workbook
  is the list of its sheets with their names.
\<close>

type_synonym 'o worksheet = "nat \<Rightarrow> nat \<Rightarrow> 'o pyval"

type_synonym 'o workbook = "(ustr \<times> 'o worksheet) list"

definition sheet_by_name :: "'o workbook \<Rightarrow> ustr \<Rightarrow> exn + 'o worksheet" where
  "sheet_by_name wb name = (case map_of wb name of None \<Rightarrow> Inl KeyError | Some ws \<Rightarrow> Inr ws)"

definition select_sheet :: "'o workbook \<Rightarrow> int + ustr \<Rightarrow> exn + 'o worksheet" where
  "select_sheet wb sheet_name =
     (case sheet_name of
        Inl i \<Rightarrow>
          (let n = int (length wb); j = (if i < 0 then n + i else i)
           in if 0 \<le> j \<and> j < n then sheet_by_name wb (fst (wb ! nat j)) else Inl IndexError)
      | Inr name \<Rightarrow>
          (if name \<in> set (map fst wb) then sheet_by_name wb name
           else (case wb of [] \<Rightarrow> Inl IndexError | p # _ \<Rightarrow> sheet_by_name wb (fst p))))"

text \<open>\<open>s.split(sep)\<close> for a separator of one character.\<close>

fun py_split :: "nat \<Rightarrow> ustr \<Rightarrow> ustr list" where
  "py_split sep [] = [[]]"
| "py_split sep (c # cs) =
     (if c = sep then [] # py_split sep cs
      else (case py_split sep cs of [] \<Rightarrow> [[c]] | p # ps \<Rightarrow> (c # p) # ps))"

text \<open>
  \<open>openpyxl.utils.column_index_from_string\<close>: the upper-cased name is looked up among
  \<open>A\<close> .. \<open>ZZZ\<close>, numbered from 1 in base 26; any other name raises \<open>ValueError\<close>.
\<close>

definition column_index_from_string :: "'o pylib \<Rightarrow> ustr \<Rightarrow> exn + nat" where
  "column_index_from_string L str_col =
     (let u = str_upper L str_col
      in if 1 \<le> length u \<and> length u \<le> 3 \<and> list_all (\<lambda>c. 65 \<le> c \<and> c \<le> 90) u
         then Inr (foldl (\<lambda>n c. 26 * n + (c - 64)) 0 u)
         else Inl ValueError)"

text \<open>The conversion of one cell: \<open>float(str(v).strip())\<close>, and \<open>0.0\<close> when it raises.\<close>

definition to_float_or_zero :: "'o pylib \<Rightarrow> 'o pyval \<Rightarrow> pyfloat" where
  "to_float_or_zero L v =
     (case float_of L (py_strip L (str_of L v)) of Some v_num \<Rightarrow> v_num | None \<Rightarrow> FNum 0)"

text \<open>
  \<open>read_excel_row_values_for_headers\<close>. \<open>load\<close> is \<open>load_workbook\<close> on the file
  system: the workbook at a path, or the message of the exception it raises.
  \<open>ws.cell\<close> raises \<open>ValueError\<close> for a row below 1. The result is a dictionary, so a
  header that occurs twice is one key and keeps the value of its last occurrence.
\<close>

definition read_excel_row_values_for_headers ::
  "'o pylib \<Rightarrow> (ustr \<Rightarrow> ustr + 'o workbook) \<Rightarrow> ustr \<Rightarrow> int + ustr \<Rightarrow> ustr \<Rightarrow> nat \<Rightarrow> ustr list
     \<Rightarrow> exn + (ustr, pyfloat) pydict" where
  "read_excel_row_values_for_headers L load xlsx_path sheet_name usecols_range target_row headers =
     (case load xlsx_path of
        Inl msg \<Rightarrow> Inl (Raised msg)
      | Inr wb \<Rightarrow>
     (case select_sheet wb sheet_name of
        Inl e \<Rightarrow> Inl e
      | Inr ws \<Rightarrow>
     (case py_split 58 usecols_range of
        [start_letter, end_letter] \<Rightarrow>
          (case column_index_from_string L start_letter of
             Inl e \<Rightarrow> Inl e
           | Inr start_idx \<Rightarrow>
          (case column_index_from_string L end_letter of
             Inl e \<Rightarrow> Inl e
           | Inr end_idx \<Rightarrow>
             if target_row < 1 \<and> start_idx \<le> end_idx then Inl ValueError
             else
               (let vals = map (\<lambda>col_idx. to_float_or_zero L (ws target_row col_idx))
                             [start_idx ..< end_idx + 1];
                    n = min (length headers) (length vals)
                in Inr (foldl (\<lambda>d i. dict_set d (headers ! i) (vals ! i)) [] [0 ..< n]))))
      | _ \<Rightarrow> Inl ValueError)))"

section \<open>The Excel export\<close>

text \<open>
  What a cell of the exported sheet holds: nothing, a string, an integer (the running
  number), or a value copied from the data frame.
\<close>

datatype 'o xval = XNone | XStr ustr | XInt int | XVal "'o pyval"

record font =
  font_name :: ustr
  font_size :: "nat option"
  font_bold :: bool

record 'o xcell =
  cell_val :: "'o xval"
  cell_font :: "font option"
  cell_centered :: bool
  cell_border :: bool

text \<open>
  The sheet that \<open>Workbook().active\<close> gives and the script fills: its title, its cells by
  (row, column), the merged ranges (first row, first column, last row, last column), and
  the row heights and column widths that were set. \<open>wb.save(buf)\<close> serialises exactly
  this content, so the sheet stands for the bytes of the download.
\<close>

record 'o xsheet =
  ws_title :: ustr
  ws_cells :: "nat \<times> nat \<rightharpoonup> 'o xcell"
  ws_merged :: "(nat \<times> nat \<times> nat \<times> nat) list"
  ws_row_height :: "nat \<rightharpoonup> nat"
  ws_col_width :: "nat \<rightharpoonup> nat"

definition empty_cell :: "'o xcell" where
  "empty_cell = \<lparr>cell_val = XNone, cell_font = None, cell_centered = False, cell_border = False\<rparr>"

definition new_sheet :: "'o xsheet" where
  "new_sheet = \<lparr>ws_title = ascii ''Sheet'', ws_cells = Map.empty, ws_merged = [],
                 ws_row_height = Map.empty, ws_col_width = Map.empty\<rparr>"

text \<open>\<open>ws.cell(row=r, column=c)\<close> returns the cell, creating an empty one if needed.\<close>

definition ws_cell :: "'o xsheet \<Rightarrow> nat \<Rightarrow> nat \<Rightarrow> 'o xcell" where
  "ws_cell ws r c = (case ws_cells ws (r, c) of None \<Rightarrow> empty_cell | Some x \<Rightarrow> x)"

definition upd_cell :: "'o xsheet \<Rightarrow> nat \<Rightarrow> nat \<Rightarrow> ('o xcell \<Rightarrow> 'o xcell) \<Rightarrow> 'o xsheet" where
  "upd_cell ws r c f = ws\<lparr>ws_cells := (ws_cells ws)((r, c) \<mapsto> f (ws_cell ws r c))\<rparr>"

definition set_val :: "'o xsheet \<Rightarrow> nat \<Rightarrow> nat \<Rightarrow> 'o xval \<Rightarrow> 'o xsheet" where
  "set_val ws r c v = upd_cell ws r c (\<lambda>x. x\<lparr>cell_val := v\<rparr>)"

definition set_font :: "'o xsheet \<Rightarrow> nat \<Rightarrow> nat \<Rightarrow> font \<Rightarrow> 'o xsheet" where
  "set_font ws r c f = upd_cell ws r c (\<lambda>x. x\<lparr>cell_font := Some f\<rparr>)"

definition set_center :: "'o xsheet \<Rightarrow> nat \<Rightarrow> nat \<Rightarrow> 'o xsheet" where
  "set_center ws r c = upd_cell ws r c (\<lambda>x. x\<lparr>cell_centered := True\<rparr>)"

definition set_border :: "'o xsheet \<Rightarrow> nat \<Rightarrow> nat \<Rightarrow> 'o xsheet" where
  "set_border ws r c = upd_cell ws r c (\<lambda>x. x\<lparr>cell_border := True\<rparr>)"

definition merge_cells :: "'o xsheet \<Rightarrow> nat \<Rightarrow> nat \<Rightarrow> nat \<Rightarrow> nat \<Rightarrow> 'o xsheet" where
  "merge_cells ws start_row start_column end_row end_column =
     ws\<lparr>ws_merged := ws_merged ws @ [(start_row, start_column, end_row, end_column)]\<rparr>"

definition set_row_height :: "'o xsheet \<Rightarrow> nat \<Rightarrow> nat \<Rightarrow> 'o xsheet" where
  "set_row_height ws r h = ws\<lparr>ws_row_height := (ws_row_height ws)(r \<mapsto> h)\<rparr>"

definition set_col_width :: "'o xsheet \<Rightarrow> nat \<Rightarrow> nat \<Rightarrow> 'o xsheet" where
  "set_col_width ws c w = ws\<lparr>ws_col_width := (ws_col_width ws)(c \<mapsto> w)\<rparr>"

definition choose_font_name :: ustr where
  "choose_font_name = (case PREFERRED_FONTS of [] \<Rightarrow> ascii ''Arial'' | name # _ \<Rightarrow> name)"

text \<open>
  The nine headers of the export: running number, class, number, name, and the five
  weekdays Monday to Friday. The sheet title is \<open>U+D544 U+D130 U+ACB0 U+ACFC\<close>
  (filter result).
\<close>

definition export_headers :: "ustr list" where
  "export_headers = [[0xC21C, 0xBC88], [0xBC18], [0xBC88, 0xD638], [0xC774, 0xB984],
                     [0xC6D4], [0xD654], [0xC218], [0xBAA9], [0xAE08]]"

definition export_sheet_title :: ustr where
  "export_sheet_title = [0xD544, 0xD130, 0xACB0, 0xACFC]"

fun write_headers :: "ustr \<Rightarrow> nat \<Rightarrow> 'o xsheet \<Rightarrow> nat \<Rightarrow> ustr list \<Rightarrow> 'o xsheet" where
  "write_headers fnt header_row ws idx [] = ws"
| "write_headers fnt header_row ws idx (h # hs) =
     write_headers fnt header_row
       (set_center
          (set_font (set_val ws header_row idx (XStr h)) header_row idx
             \<lparr>font_name = fnt, font_size = None, font_bold = True\<rparr>)
          header_row idx)
       (idx + 1) hs"

text \<open>
  One data row. \<open>row.iloc[0]\<close>, \<open>row.iloc[1]\<close> and \<open>row.iloc[2]\<close> raise \<open>IndexError\<close>
  when the row has fewer than three cells; the sheet built so far is then lost with the
  exception.
\<close>

definition write_row :: "ustr \<Rightarrow> 'o xsheet \<Rightarrow> nat \<Rightarrow> nat \<Rightarrow> 'o pyval list \<Rightarrow> exn + 'o xsheet" where
  "write_row fnt ws r i row =
     (let f = \<lparr>font_name = fnt, font_size = None, font_bold = False\<rparr>;
          ws1 = set_font (set_val ws r 1 (XInt (int i))) r 1 f
      in case row of
           v0 # v1 # v2 # _ \<Rightarrow>
             (let ws2 = set_font (set_val ws1 r 2 (XVal v0)) r 2 f;
                  ws3 = set_font (set_val ws2 r 3 (XVal v1)) r 3 f;
                  ws4 = set_font (set_val ws3 r 4 (XVal v2)) r 4 f
              in Inr (fold (\<lambda>c w. set_font w r c f) [5 ..< 10] ws4))
         | _ \<Rightarrow> Inl IndexError)"

fun write_rows :: "ustr \<Rightarrow> nat \<Rightarrow> 'o xsheet \<Rightarrow> nat \<Rightarrow> 'o pyval list list \<Rightarrow> exn + 'o xsheet" where
  "write_rows fnt start_row ws i [] = Inr ws"
| "write_rows fnt start_row ws i (row # rest) =
     (case write_row fnt ws (start_row + i - 1) i row of
        Inl e \<Rightarrow> Inl e
      | Inr ws' \<Rightarrow> write_rows fnt start_row ws' (i + 1) rest)"

definition export_widths :: "(nat \<times> nat) list" where
  "export_widths = [(1, 6), (2, 6), (3, 6), (4, 16), (5, 6), (6, 6), (7, 6), (8, 6), (9, 6)]"

definition build_formatted_excel ::
  "'o pylib \<Rightarrow> (ustr, 'o pyval) frame \<Rightarrow> ustr \<Rightarrow> ustr \<Rightarrow> exn + 'o xsheet" where
  "build_formatted_excel L df_view file_choice filter_col =
     (let title_text = py_strip L (py_replace file_choice (ascii ''.xlsx'') [] @ ascii '' '' @ filter_col);
          title = normalize_text L (PyStr title_text);
          headers = export_headers;
          n_cols = length headers;
          fnt = choose_font_name;
          ws0 = new_sheet\<lparr>ws_title := export_sheet_title\<rparr>;
          ws1 = merge_cells (set_val ws0 1 1 (XStr title)) 1 1 1 n_cols;
          ws2 = set_center (set_font ws1 1 1 \<lparr>font_name = fnt, font_size = Some 16, font_bold = True\<rparr>) 1 1;
          ws3 = set_row_height (set_row_height ws2 1 28) 2 6;
          header_row = 3;
          ws4 = write_headers fnt header_row ws3 1 headers;
          start_row = header_row + 1
      in case write_rows fnt start_row ws4 1 (df_rows df_view) of
           Inl e \<Rightarrow> Inl e
         | Inr ws5 \<Rightarrow>
             (let len = length (df_rows df_view);
                  last_row = (if len > 0 then start_row + len - 1 else header_row);
                  end_row = max header_row last_row;
                  ws6 = fold (\<lambda>p w. set_center (set_border w (fst p) (snd p)) (fst p) (snd p))
                          (List.product [header_row ..< end_row + 1] [1 ..< n_cols + 1]) ws5;
                  ws7 = fold (\<lambda>p w. set_col_width w (fst p) (snd p)) export_widths ws6;
                  ws8 = fold (\<lambda>r w. set_row_height w r 20) [header_row ..< end_row + 1] ws7
              in Inr ws8))"

section \<open>The PDF export\<close>

datatype pstyle = TitleStyle | NormalStyle

datatype 'o flowable = Paragraph ustr pstyle | Spacer nat nat | Table "'o xval list list"

text \<open>
  \<open>build_pdf\<close>: the story handed to \<open>doc.build\<close>. \<open>now\<close> is the text of
  \<open>datetime.now().strftime(...)\<close>. The two title pieces are the Korean for
  "filter result (" and " == 1) - "; \<open>pdf_no_data\<close> says that there is nothing to show.
\<close>

definition pdf_title_open :: ustr where
  "pdf_title_open = [0xD544, 0xD130, 0x20, 0xACB0, 0xACFC, 0x20, 0x28]"

definition pdf_title_mid :: ustr where
  "pdf_title_mid = [0x20, 0x3D, 0x3D, 0x20, 0x31, 0x29, 0x20, 0x2014, 0x20]"

definition pdf_no_data :: ustr where
  "pdf_no_data = [0xD45C, 0xC2DC, 0xD560, 0x20, 0xB370, 0xC774, 0xD130, 0xAC00, 0x20,
                  0xC5C6, 0xC2B5, 0xB2C8, 0xB2E4, 0x2E]"

definition build_pdf ::
  "'o pylib \<Rightarrow> ustr \<Rightarrow> (ustr, 'o pyval) frame \<Rightarrow> ustr \<Rightarrow> ustr \<Rightarrow> 'o flowable list" where
  "build_pdf L now df_result file_choice filter_col =
     [Paragraph (pdf_title_open @ normalize_text L (PyStr filter_col) @ pdf_title_mid
                   @ normalize_text L (PyStr file_choice)) TitleStyle,
      Spacer 1 12]
     @ (if df_columns df_result = [] \<or> df_rows df_result = []
        then [Paragraph pdf_no_data NormalStyle]
        else [Table (map XStr (df_columns df_result) # map (map XVal) (df_rows df_result))])
     @ [Spacer 1 12, Paragraph now NormalStyle]"

section \<open>The script\<close>

text \<open>
  One run of the script (Streamlit runs it top to bottom at every interaction). Its
  inputs are the environment: the listing of the data directory, what \<open>pd.read_excel\<close>
  and \<open>load_workbook\<close> give for a path (a result, or the message of the exception
  raised), and the positions the user has chosen in the two select boxes.
\<close>

record 'o env =
  listdir :: "ustr list"
  read_excel :: "ustr \<Rightarrow> ustr + ('o pyval, 'o pyval) frame"
  load_workbook :: "ustr \<Rightarrow> ustr + 'o workbook"
  file_pick :: nat
  col_pick :: nat

text \<open>
  What a run does, in order: the calls that touch the file system, and the widgets and
  messages it renders. Messages with a fixed text carry no text; the page settings and
  the two style sheets, which are constant, are left out. \<open>ShowFrame\<close> is
  \<open>st.dataframe\<close> with its height and \<open>hide_index\<close>; \<open>Download\<close> is
  \<open>st.download_button\<close> with its data, file name and MIME type.
\<close>

datatype 'o payload = XlsxBytes "'o xsheet" | PdfBytes "'o flowable list"

datatype 'o event =
    Makedirs ustr
  | Listdir ustr
  | ReadExcel ustr
  | LoadWorkbook ustr
  | SidebarHeader
  | ErrorNoFiles
  | SelectFile "ustr list"
  | ErrorLoad ustr
  | WarnNoFilterable
  | SelectColumn "ustr list"
  | Info ustr
  | Title ustr
  | WarnNoDisplay
  | ShowFrame "(ustr, 'o xval) frame" nat bool
  | Download "'o payload" ustr ustr
  | Success

text \<open>
  How a run ends: at its last line, at \<open>st.stop()\<close>, or with an exception that nothing
  catches.
\<close>

datatype outcome = Finished | Stopped | Crashed exn

definition after :: "'e list \<Rightarrow> 'e list \<times> outcome \<Rightarrow> 'e list \<times> outcome" where
  "after t r = (t @ fst r, snd r)"

text \<open>\<open>st.selectbox\<close>: the option at the chosen position, the first one by default.\<close>

definition selectbox :: "'a list \<Rightarrow> nat \<Rightarrow> 'a option" where
  "selectbox opts i =
     (if opts = [] then None else Some (opts ! (if i < length opts then i else 0)))"

definition is_excel_name :: "'o pylib \<Rightarrow> ustr \<Rightarrow> bool" where
  "is_excel_name L f =
     (endswith (str_lower L f) (ascii ''.xlsx'') \<or> endswith (str_lower L f) (ascii ''.xls''))"

definition excel_files_sorted :: "'o pylib \<Rightarrow> ustr list \<Rightarrow> ustr list" where
  "excel_files_sorted L names = sort (filter (is_excel_name L) names)"

definition somes :: "'a option list \<Rightarrow> 'a list" where
  "somes xs = concat (map (\<lambda>x. case x of None \<Rightarrow> [] | Some c \<Rightarrow> [c]) xs)"

definition blocked_cols :: "'o pylib \<Rightarrow> ustr list \<Rightarrow> ustr set" where
  "blocked_cols L cols =
     set (somes [find_col L cols CANDIDATE_CLASS_COLS,
                 find_col L cols CANDIDATE_NO_COLS,
                 find_col L cols CANDIDATE_NAME_COLS])"

definition zero_sum_cols :: "(ustr, pyfloat) pydict \<Rightarrow> ustr set" where
  "zero_sum_cols sum_map_174 =
     set (map fst (filter (\<lambda>item. float_eq (snd item) (FNum 0)) sum_map_174))"

definition filterable_cols :: "'o pylib \<Rightarrow> ustr list \<Rightarrow> (ustr, pyfloat) pydict \<Rightarrow> ustr list" where
  "filterable_cols L cols sum_map_174 =
     filter (\<lambda>c. c \<notin> blocked_cols L cols \<and> c \<notin> zero_sum_cols sum_map_174) cols"

text \<open>
  \<open>df[df[filter_col].apply(is_one)]\<close>. When exactly one column carries the label,
  \<open>df[filter_col]\<close> is that column and the rows kept are those whose cell passes
  \<open>is_one\<close>. When no column carries it the lookup raises \<open>KeyError\<close>. When several do,
  \<open>df[filter_col]\<close> is a frame, \<open>apply\<close> hands \<open>is_one\<close> whole columns, and the
  \<open>if\<close> on \<open>pd.isna\<close> of a column raises \<open>ValueError\<close>.
\<close>

definition apply_mask ::
  "'o pylib \<Rightarrow> (ustr, 'o pyval) frame \<Rightarrow> ustr \<Rightarrow> exn + (ustr, 'o pyval) frame" where
  "apply_mask L df filter_col =
     (let k = length (filter (\<lambda>c. c = filter_col) (df_columns df))
      in if k = 0 then Inl KeyError
         else if k > 1 then Inl ValueError
         else Inr \<lparr>df_columns = df_columns df,
                   df_rows = filter (\<lambda>r. case col_cells (df_columns df) r filter_col of
                                              [x] \<Rightarrow> is_one L x
                                            | _ \<Rightarrow> False) (df_rows df)\<rparr>)"

text \<open>\<open>find_col(...) or default\<close>: an empty string counts as false, as \<open>None\<close> does.\<close>

definition or_default :: "ustr option \<Rightarrow> ustr \<Rightarrow> ustr" where
  "or_default r d = (case r of None \<Rightarrow> d | Some c \<Rightarrow> if c = [] then d else c)"

definition seq_label :: ustr where
  "seq_label = [0xC21C, 0xBC88]"

definition xlsx_mime :: ustr where
  "xlsx_mime = ascii ''application/vnd.openxmlformats-officedocument.spreadsheetml.sheet''"

text \<open>
  The download button and the closing message. \<open>download_name\<close> is the file name
  the button proposes.
\<close>

definition download_name :: "'o pylib \<Rightarrow> ustr \<Rightarrow> ustr \<Rightarrow> ustr" where
  "download_name L file_choice filter_col =
     py_replace (normalize_text L (PyStr file_choice)) (ascii ''.xlsx'') []
       @ ascii ''_'' @ normalize_text L (PyStr filter_col) @ ascii ''.xlsx''"

definition stage_export ::
  "'o pylib \<Rightarrow> ustr \<Rightarrow> ustr \<Rightarrow> (ustr, 'o pyval) frame \<Rightarrow> 'o event list \<times> outcome" where
  "stage_export L file_choice filter_col df_view =
     (case build_formatted_excel L df_view file_choice filter_col of
        Inl e \<Rightarrow> ([], Crashed e)
      | Inr xlsx_bytes \<Rightarrow>
          ([Download (XlsxBytes xlsx_bytes) (download_name L file_choice filter_col) xlsx_mime,
            Success], Finished))"

text \<open>
  The preview. \<open>df_display.insert(0, label, ...)\<close> raises \<open>ValueError\<close> when the frame
  already has a column with the label of the running number.
\<close>

definition display_cols :: "'o pylib \<Rightarrow> ustr list \<Rightarrow> ustr list" where
  "display_cols L cols =
     (let class_col = or_default (find_col L cols CANDIDATE_CLASS_COLS) [0xBC18];
          no_col = or_default (find_col L cols CANDIDATE_NO_COLS) [0xBC88, 0xD638];
          name_col = or_default (find_col L cols CANDIDATE_NAME_COLS) [0xC774, 0xB984]
      in filter (\<lambda>c. c \<in> set cols) [class_col, no_col, name_col])"

definition stage_display ::
  "'o pylib \<Rightarrow> ustr \<Rightarrow> ustr \<Rightarrow> (ustr, 'o pyval) frame \<Rightarrow> 'o event list \<times> outcome" where
  "stage_display L file_choice filter_col df_one =
     (let display_cols = display_cols L (df_columns df_one)
      in if display_cols = [] then
           after [WarnNoDisplay,
                  ShowFrame \<lparr>df_columns = df_columns df_one,
                             df_rows = map (map XVal) (df_rows (head_rows 20 df_one))\<rparr> 320 False]
             (stage_export L file_choice filter_col df_one)
         else
           (let df_view = select_columns df_one display_cols;
                n = length (df_rows df_view)
            in if seq_label \<in> set (df_columns df_view) then ([], Crashed ValueError)
               else
                 after [ShowFrame \<lparr>df_columns = seq_label # df_columns df_view,
                                    df_rows = map (\<lambda>p. XInt (int (fst p)) # map XVal (snd p))
                                                (zip [1 ..< n + 1] (df_rows df_view))\<rparr>
                          (min 900 (100 + 37 * max 5 n)) True]
                   (stage_export L file_choice filter_col df_view)))"

text \<open>
  The second select box, the info line, the page title and the filter. With no option
  to choose from, \<open>st.selectbox\<close> gives \<open>None\<close> and \<open>df[None]\<close> raises \<open>KeyError\<close>.
  The info line is the chosen label between two pairs of asterisks followed by the
  Korean for "selected"; the title ends in the Korean for "list of attendees".
\<close>

definition info_text :: "'o pylib \<Rightarrow> ustr option \<Rightarrow> ustr" where
  "info_text L filter_col =
     ascii ''**''
       @ normalize_text L (case filter_col of None \<Rightarrow> PyNone | Some c \<Rightarrow> PyStr c)
       @ ascii ''**'' @ [0x20, 0xC120, 0xD0DD, 0xB428]"

definition page_title :: "'o pylib \<Rightarrow> ustr \<Rightarrow> ustr option \<Rightarrow> ustr" where
  "page_title L file_choice filter_col =
     py_replace (normalize_text L (PyStr file_choice)) (ascii ''.xlsx'') []
       @ ascii '' ''
       @ normalize_text L (case filter_col of None \<Rightarrow> PyNone | Some c \<Rightarrow> PyStr c)
       @ [0x20, 0xC218, 0xAC15, 0xC790, 0x20, 0xBA85, 0xB2E8]"

definition stage_filter ::
  "'o pylib \<Rightarrow> 'o env \<Rightarrow> ustr \<Rightarrow> (ustr, 'o pyval) frame \<Rightarrow> ustr list \<Rightarrow> 'o event list \<times> outcome" where
  "stage_filter L E file_choice df options =
     (let filter_col = selectbox options (col_pick E)
      in after [SelectColumn options,
                Info (info_text L filter_col),
                Title (page_title L file_choice filter_col)]
           (case filter_col of
              None \<Rightarrow> ([], Crashed KeyError)
            | Some c \<Rightarrow>
                (case apply_mask L df c of
                   Inl e \<Rightarrow> ([], Crashed e)
                 | Inr df_one \<Rightarrow> stage_display L file_choice c df_one)))"

text \<open>
  After a successful load: the labels become \<open>str(c).strip()\<close>, the class, number and
  name columns are detected, row 174 is read from the workbook (opening the file a
  second time), and the columns to choose from are computed.
\<close>

definition stage_columns ::
  "'o pylib \<Rightarrow> 'o env \<Rightarrow> ustr \<Rightarrow> ustr \<Rightarrow> ('o pyval, 'o pyval) frame \<Rightarrow> 'o event list \<times> outcome" where
  "stage_columns L E file_choice selected_path df_raw =
     (let df = \<lparr>df_columns = map (\<lambda>c. py_strip L (str_of L c)) (df_columns df_raw),
                df_rows = df_rows df_raw\<rparr>
      in after [LoadWorkbook selected_path]
           (case read_excel_row_values_for_headers L (load_workbook E) selected_path SHEET_NAME
                   USECOLS_RANGE TARGET_SUM_ROW (df_columns df) of
              Inl e \<Rightarrow> ([], Crashed e)
            | Inr sum_map_174 \<Rightarrow>
                (let cols = filterable_cols L (df_columns df) sum_map_174
                 in if length cols = 0
                    then after [WarnNoFilterable] (stage_filter L E file_choice df (df_columns df))
                    else stage_filter L E file_choice df cols)))"

text \<open>
  The whole script. The message of a failed load is the Korean for "Excel load
  failed: " followed by the text of the exception.
\<close>

definition load_error_prefix :: ustr where
  "load_error_prefix = [0xC5D1, 0xC140, 0x20, 0xB85C, 0xB4DC, 0x20, 0xC2E4, 0xD328, 0x3A, 0x20]"

definition run :: "'o pylib \<Rightarrow> 'o env \<Rightarrow> 'o event list \<times> outcome" where
  "run L E =
     (let files = excel_files_sorted L (listdir E)
      in after [Makedirs DATA_DIR, Listdir DATA_DIR, SidebarHeader]
           (if length files = 0 then ([ErrorNoFiles], Stopped)
            else
              (case selectbox files (file_pick E) of
                 None \<Rightarrow> ([], Crashed TypeError)
               | Some file_choice \<Rightarrow>
                   (let selected_path = DATA_DIR @ ascii ''/'' @ file_choice
                    in after [SelectFile files, ReadExcel selected_path]
                         (case read_excel E selected_path of
                            Inl msg \<Rightarrow>
                              ([ErrorLoad (load_error_prefix @ msg)], Stopped)
                          | Inr df_raw \<Rightarrow> stage_columns L E file_choice selected_path df_raw)))))"

section \<open>Observations on a run\<close>

text \<open>
  The paths a run opens, the frames it shows and the downloads it offers, read off the
  list of its events; and the two phases of \<open>find_col\<close> as predicates on a candidate.
\<close>

definition file_opens :: "'o event list \<Rightarrow> ustr list" where
  "file_opens t =
     concat (map (\<lambda>e. case e of ReadExcel p \<Rightarrow> [p] | LoadWorkbook p \<Rightarrow> [p] | _ \<Rightarrow> []) t)"

definition previews :: "'o event list \<Rightarrow> (ustr, 'o xval) frame list" where
  "previews t = concat (map (\<lambda>e. case e of ShowFrame f h b \<Rightarrow> [f] | _ \<Rightarrow> []) t)"

definition downloads :: "'o event list \<Rightarrow> ('o payload \<times> ustr \<times> ustr) list" where
  "downloads t = concat (map (\<lambda>e. case e of Download d n m \<Rightarrow> [(d, n, m)] | _ \<Rightarrow> []) t)"

fun is_pdf :: "'o payload \<Rightarrow> bool" where
  "is_pdf (PdfBytes story) = True"
| "is_pdf (XlsxBytes ws) = False"

text \<open>
  The two ways a run can end as far as downloads go: it offers none and does not reach
  its last line, or it finishes and offers exactly one, the sheet that
  \<open>build_formatted_excel\<close> built for the chosen file.
\<close>

definition export_shape :: "'o pylib \<Rightarrow> ustr \<Rightarrow> 'o event list \<times> outcome \<Rightarrow> bool" where
  "export_shape L f r =
     (downloads (fst r) = [] \<and> snd r \<noteq> Finished \<or>
      (\<exists>c v ws. build_formatted_excel L v f c = Inr ws \<and> snd r = Finished \<and>
         downloads (fst r) = [(XlsxBytes ws, download_name L f c, xlsx_mime)]))"

text \<open>
  Three values of the script, named for the statements below: the frame after the labels
  were stripped (\<open>df.columns = [str(c).strip() for c in df.columns]\<close>), the list
  \<open>filterable_cols\<close> as the second select box receives it (all columns when the
  exclusions leave none), and \<open>df_view\<close> as the export receives it (the filtered frame
  cut down to the class, number and name columns found, or the whole filtered frame when
  none is found).
\<close>

definition strip_labels :: "'o pylib \<Rightarrow> ('o pyval, 'o pyval) frame \<Rightarrow> (ustr, 'o pyval) frame" where
  "strip_labels L df_raw =
     \<lparr>df_columns = map (\<lambda>c. py_strip L (str_of L c)) (df_columns df_raw),
      df_rows = df_rows df_raw\<rparr>"

definition offered_cols :: "'o pylib \<Rightarrow> ustr list \<Rightarrow> (ustr, pyfloat) pydict \<Rightarrow> ustr list" where
  "offered_cols L cols sum_map_174 =
     (if length (filterable_cols L cols sum_map_174) = 0 then cols
      else filterable_cols L cols sum_map_174)"

definition export_view :: "'o pylib \<Rightarrow> (ustr, 'o pyval) frame \<Rightarrow> (ustr, 'o pyval) frame" where
  "export_view L df_one =
     (if display_cols L (df_columns df_one) = [] then df_one
      else select_columns df_one (display_cols L (df_columns df_one)))"

definition exact_hit :: "'o pylib \<Rightarrow> ustr list \<Rightarrow> ustr \<Rightarrow> bool" where
  "exact_hit L df_cols cand = list_ex (\<lambda>c. str_lower L c = str_lower L cand) df_cols"

definition partial_hit :: "'o pylib \<Rightarrow> ustr list \<Rightarrow> ustr \<Rightarrow> bool" where
  "partial_hit L df_cols cand = list_ex (re_search L cand) df_cols"

section \<open>A concrete library for the examples\<close>

text \<open>
  The theorems below hold for every library \<open>L\<close>. To run the definitions on concrete
  inputs, \<open>ascii_lib\<close> fixes one: objects are integers, printed in decimal; case
  mapping touches the letters A to Z only; white space is the ASCII white space;
  normalisation changes nothing; and \<open>float\<close> reads an optional sign, digits and an
  optional fraction. On the ASCII strings and small integers of the examples this is
  what CPython computes.
\<close>

definition ascii_lower_chr :: "nat \<Rightarrow> nat" where
  "ascii_lower_chr c = (if 65 \<le> c \<and> c \<le> 90 then c + 32 else c)"

definition ascii_upper_chr :: "nat \<Rightarrow> nat" where
  "ascii_upper_chr c = (if 97 \<le> c \<and> c \<le> 122 then c - 32 else c)"

definition ascii_isspace :: "nat \<Rightarrow> bool" where
  "ascii_isspace c = (c = 32 \<or> (9 \<le> c \<and> c \<le> 13) \<or> (28 \<le> c \<and> c \<le> 31))"

definition is_digit :: "nat \<Rightarrow> bool" where
  "is_digit c = (48 \<le> c \<and> c \<le> 57)"

definition digits_val :: "ustr \<Rightarrow> nat" where
  "digits_val ds = foldl (\<lambda>n c. 10 * n + (c - 48)) 0 ds"

definition dec_float :: "ustr \<Rightarrow> pyfloat option" where
  "dec_float s =
     (let t = rev (dropWhile ascii_isspace (rev (dropWhile ascii_isspace s)));
          neg = (case t of [] \<Rightarrow> False | c # r \<Rightarrow> c = 45);
          body = (case t of [] \<Rightarrow> [] | c # r \<Rightarrow> if c = 45 \<or> c = 43 then r else t);
          ip = takeWhile is_digit body;
          rest = dropWhile is_digit body;
          sgn = (if neg then - 1 else 1)
      in if ip = [] then None
         else (case rest of
                 [] \<Rightarrow> Some (FNum (sgn * of_nat (digits_val ip)))
               | c # fp \<Rightarrow>
                   if c = 46 \<and> list_all is_digit fp
                   then Some (FNum (sgn * (of_nat (digits_val ip)
                                           + of_nat (digits_val fp) / 10 ^ length fp)))
                   else None))"

fun dec_digits :: "nat \<Rightarrow> ustr" where
  "dec_digits n = (if n < 10 then [48 + n] else dec_digits (n div 10) @ [48 + n mod 10])"

definition int_str :: "int \<Rightarrow> ustr" where
  "int_str i = (if i < 0 then 45 # dec_digits (nat (- i)) else dec_digits (nat i))"

definition ascii_lib :: "int pylib" where
  "ascii_lib =
     \<lparr>str_lower = map ascii_lower_chr,
      str_upper = map ascii_upper_chr,
      chr_isspace = ascii_isspace,
      nfc = (\<lambda>s. s),
      re_ieq = (\<lambda>p c. ascii_lower_chr p = ascii_lower_chr c),
      float_of = dec_float,
      obj_str = int_str,
      obj_isna = (\<lambda>x. False)\<rparr>"

text \<open>
  Environments for the examples: the directory holds the given names, every path loads
  as \<open>loaded\<close>, every workbook has the one sheet \<open>ws\<close>, and the user takes the first
  file and the column at position \<open>pick\<close>. \<open>row174\<close> is a sheet whose row 174 holds
  the given values from column A on and which is empty elsewhere.
\<close>

definition demo_env ::
  "ustr list \<Rightarrow> ustr + (int pyval, int pyval) frame \<Rightarrow> int worksheet \<Rightarrow> nat \<Rightarrow> int env" where
  "demo_env names loaded ws pick =
     \<lparr>listdir = names,
      read_excel = (\<lambda>p. loaded),
      load_workbook = (\<lambda>p. Inr [(ascii ''Sheet1'', ws)]),
      file_pick = 0,
      col_pick = pick\<rparr>"

definition row174 :: "int pyval list \<Rightarrow> int worksheet" where
  "row174 vs r c = (if r = 174 \<and> 1 \<le> c \<and> c \<le> length vs then vs ! (c - 1) else PyNone)"

text \<open>
  A small roster as \<open>pd.read_excel\<close> gives it: class, number, name and two subjects
  (the first label with a trailing blank), three students, the second of whom did not
  apply for the first subject.
\<close>

definition demo_frame :: "(int pyval, int pyval) frame" where
  "demo_frame =
     \<lparr>df_columns = [PyStr (ascii ''Class ''), PyStr (ascii ''No''), PyStr (ascii ''Name''),
                    PyStr (ascii ''Math''), PyStr (ascii ''Art'')],
      df_rows = [[PyObj 1, PyObj 1, PyStr (ascii ''Kim''), PyObj 1, PyNone],
                 [PyObj 1, PyObj 2, PyStr (ascii ''Lee''), PyNone, PyNone],
                 [PyObj 2, PyObj 1, PyStr (ascii ''Park''), PyStr (ascii ''1''), PyNone]]\<rparr>"

definition demo_sums :: "int pyval list" where
  "demo_sums = [PyNone, PyNone, PyNone, PyObj 2, PyObj 0]"

text \<open>
  Three more rosters. One has no number column. One has 21 students with an identifier
  and two subjects, but no class, number or name column; as \<open>pd.read_excel\<close> gives
  it, with the blank sheet rows 24 to 173 and the sums of sheet row 174 as further rows.
  One has two subject columns whose header cells differ only by a trailing blank: nobody
  applied for the first, three students applied for the second.
\<close>

definition demo_frame_no_number :: "(int pyval, int pyval) frame" where
  "demo_frame_no_number =
     \<lparr>df_columns = [PyStr (ascii ''Class''), PyStr (ascii ''Name''), PyStr (ascii ''Math'')],
      df_rows = [[PyObj 1, PyStr (ascii ''Kim''), PyObj 1]]\<rparr>"



definition demo_frame_dup :: "(int pyval, int pyval) frame" where
  "demo_frame_dup =
     \<lparr>df_columns = [PyStr (ascii ''Math''), PyStr (ascii ''Math '')],
      df_rows = replicate 3 [PyNone, PyObj 1]
                @ replicate 168 [PyNone, PyNone]
                @ [[PyObj 0, PyObj 3]]\<rparr>"

definition demo_sums_dup :: "int pyval list" where
  "demo_sums_dup = [PyObj 0, PyObj 3]"

section \<open>Facts for evaluating the definitions\<close>

declare dec_digits.simps [simp del]

lemmas lib_defs = ascii_lib_def ascii_lower_chr_def ascii_upper_chr_def ascii_isspace_def is_digit_def
  digits_val_def dec_float_def int_str_def ascii_def

lemmas util_defs = py_strip_def str_of_def isna_def endswith_def py_replace_def re_match_here_def
  dict_get_def normalize_text_def lower_cols_def find_col_def is_one_def

section \<open>Column detection\<close>

lemma map_of_dict_set: "map_of (dict_set d k v) = (map_of d)(k \<mapsto> v)"
  by (induction d) (auto simp: fun_upd_twist)

lemma map_of_foldl_lower:
  "map_of (foldl (\<lambda>d c. dict_set d (f c) c) d0 cols) k =
     (case filter (\<lambda>c. f c = k) cols of [] \<Rightarrow> map_of d0 k | c # cs \<Rightarrow> Some (last (c # cs)))"
proof (induction cols rule: rev_induct)
  case Nil
  then show ?case by simp
next
  case (snoc x xs)
  then show ?case
    by (cases "filter (\<lambda>c. f c = k) xs") (auto simp: map_of_dict_set)
qed

lemma dict_get_lower_cols:
  "dict_get (lower_cols L cols) k =
     (case filter (\<lambda>c. str_lower L c = k) cols of [] \<Rightarrow> None | c # cs \<Rightarrow> Some (last (c # cs)))"
  unfolding dict_get_def lower_cols_def by (simp add: map_of_foldl_lower split: list.split)

lemma exact_hit_filter:
  "exact_hit L cols k \<longleftrightarrow> filter (\<lambda>c. str_lower L c = str_lower L k) cols \<noteq> []"
  by (auto simp: exact_hit_def list_ex_iff filter_empty_conv)

lemma find_exact_eq:
  "find_exact L cols cands =
     (case find (exact_hit L cols) cands of
        None \<Rightarrow> None
      | Some k \<Rightarrow> Some (last (filter (\<lambda>c. str_lower L c = str_lower L k) cols)))"
proof (induction cands)
  case Nil
  then show ?case by simp
next
  case (Cons k ks)
  show ?case
  proof (cases "filter (\<lambda>c. str_lower L c = str_lower L k) cols")
    case Nil
    then show ?thesis using Cons by (simp add: dict_get_lower_cols exact_hit_filter)
  next
    case (Cons c cs)
    then show ?thesis by (simp add: dict_get_lower_cols exact_hit_filter)
  qed
qed

lemma partial_hit_find:
  "partial_hit L cols k \<longleftrightarrow> find (re_search L k) cols \<noteq> None"
  by (auto simp: partial_hit_def list_ex_iff find_None_iff)

lemma find_partial_eq:
  "find_partial L cols cands =
     (case find (partial_hit L cols) cands of
        None \<Rightarrow> None
      | Some k \<Rightarrow> find (re_search L k) cols)"
proof (induction cands)
  case Nil
  then show ?case by simp
next
  case (Cons k ks)
  then show ?case
    by (cases "find (re_search L k) cols") (auto simp: partial_hit_find)
qed

lemma re_match_here_iff:
  "re_match_here L pat s \<longleftrightarrow> (\<exists>mid post. s = mid @ post \<and> list_all2 (re_ieq L) pat mid)"
proof
  assume "re_match_here L pat s"
  then have "s = take (length pat) s @ drop (length pat) s \<and> list_all2 (re_ieq L) pat (take (length pat) s)"
    by (simp add: re_match_here_def)
  then show "\<exists>mid post. s = mid @ post \<and> list_all2 (re_ieq L) pat mid" by blast
next
  assume "\<exists>mid post. s = mid @ post \<and> list_all2 (re_ieq L) pat mid"
  then obtain mid post where s: "s = mid @ post" and m: "list_all2 (re_ieq L) pat mid" by blast
  from m have "length pat = length mid" by (rule list_all2_lengthD)
  with s m show "re_match_here L pat s" by (simp add: re_match_here_def)
qed

lemma re_search_iff:
  "re_search L pat s \<longleftrightarrow> (\<exists>pre mid post. s = pre @ mid @ post \<and> list_all2 (re_ieq L) pat mid)"
proof (induction s)
  case Nil
  then show ?case by (auto simp: re_match_here_iff)
next
  case (Cons c cs)
  show ?case
  proof
    assume "re_search L pat (c # cs)"
    then consider "re_match_here L pat (c # cs)" | "re_search L pat cs" by auto
    then show "\<exists>pre mid post. c # cs = pre @ mid @ post \<and> list_all2 (re_ieq L) pat mid"
    proof cases
      case 1
      then obtain mid post where "c # cs = [] @ mid @ post" "list_all2 (re_ieq L) pat mid"
        by (auto simp: re_match_here_iff)
      then show ?thesis by blast
    next
      case 2
      with Cons obtain pre mid post where "cs = pre @ mid @ post" "list_all2 (re_ieq L) pat mid"
        by blast
      then have "c # cs = (c # pre) @ mid @ post" "list_all2 (re_ieq L) pat mid" by simp_all
      then show ?thesis by blast
    qed
  next
    assume "\<exists>pre mid post. c # cs = pre @ mid @ post \<and> list_all2 (re_ieq L) pat mid"
    then obtain pre mid post where s: "c # cs = pre @ mid @ post" and m: "list_all2 (re_ieq L) pat mid"
      by blast
    show "re_search L pat (c # cs)"
    proof (cases pre)
      case Nil
      with s m have "re_match_here L pat (c # cs)" by (auto simp: re_match_here_iff)
      then show ?thesis by simp
    next
      case (Cons p ps)
      with s have "cs = ps @ mid @ post" by simp
      with m Cons.IH have "re_search L pat cs" by blast
      then show ?thesis by simp
    qed
  qed
qed

text \<open>
  Claim C2. \<open>find_col\<close> works in two phases. If some candidate has an exact hit (a
  column whose lowercased label equals the lowercased candidate), the first such
  candidate \<open>k\<close> decides: the result is a column with that lowercased label (the last
  one, should several columns share it). Only if no candidate has an exact hit, the
  first candidate \<open>k\<close> with a partial hit decides, and the result is the first column
  whose label contains \<open>k\<close> as a case-insensitive substring. The result is \<open>None\<close>
  exactly when no candidate has a hit of either kind. The last three conjuncts say what
  the hits are: equality of lowercased labels, and a stretch \<open>mid\<close> of the label that
  matches the candidate character by character under \<open>re.IGNORECASE\<close>.
\<close>

theorem find_col_two_phase:
  "(\<forall>k. find (exact_hit L cols) cands = Some k \<longrightarrow>
        (\<exists>c. find_col L cols cands = Some c \<and> c \<in> set cols \<and> str_lower L c = str_lower L k
             \<and> c = last (filter (\<lambda>c. str_lower L c = str_lower L k) cols)))
   \<and> (\<forall>k. find (exact_hit L cols) cands = None \<and> find (partial_hit L cols) cands = Some k \<longrightarrow>
        (\<exists>c. find_col L cols cands = Some c \<and> find (re_search L k) cols = Some c))
   \<and> (find_col L cols cands = None \<longleftrightarrow>
        find (exact_hit L cols) cands = None \<and> find (partial_hit L cols) cands = None)
   \<and> (\<forall>k. exact_hit L cols k \<longleftrightarrow> (\<exists>c. c \<in> set cols \<and> str_lower L c = str_lower L k))
   \<and> (\<forall>k. partial_hit L cols k \<longleftrightarrow> (\<exists>c. c \<in> set cols \<and> re_search L k c))
   \<and> (\<forall>k c. re_search L k c \<longleftrightarrow>
        (\<exists>pre mid post. c = pre @ mid @ post \<and> list_all2 (re_ieq L) k mid))"
proof (intro conjI allI impI)
  fix k assume h: "find (exact_hit L cols) cands = Some k"
  then have "exact_hit L cols k" by (auto simp: find_Some_iff)
  then have ne: "filter (\<lambda>c. str_lower L c = str_lower L k) cols \<noteq> []"
    by (simp add: exact_hit_filter)
  then have "last (filter (\<lambda>c. str_lower L c = str_lower L k) cols)
               \<in> set (filter (\<lambda>c. str_lower L c = str_lower L k) cols)"
    by (rule last_in_set)
  then show "\<exists>c. find_col L cols cands = Some c \<and> c \<in> set cols \<and> str_lower L c = str_lower L k
             \<and> c = last (filter (\<lambda>c. str_lower L c = str_lower L k) cols)"
    using h by (simp add: find_col_def find_exact_eq)
next
  fix k assume h: "find (exact_hit L cols) cands = None \<and> find (partial_hit L cols) cands = Some k"
  then have "partial_hit L cols k" by (auto simp: find_Some_iff)
  then obtain c where "find (re_search L k) cols = Some c" by (auto simp: partial_hit_find)
  then show "\<exists>c. find_col L cols cands = Some c \<and> find (re_search L k) cols = Some c"
    using h by (simp add: find_col_def find_exact_eq find_partial_eq)
next
  show "find_col L cols cands = None \<longleftrightarrow>
        find (exact_hit L cols) cands = None \<and> find (partial_hit L cols) cands = None"
  proof (cases "find (exact_hit L cols) cands")
    case (Some k)
    then show ?thesis by (simp add: find_col_def find_exact_eq)
  next
    case None
    note ex = this
    show ?thesis
    proof (cases "find (partial_hit L cols) cands")
      case None
      with ex show ?thesis by (simp add: find_col_def find_exact_eq find_partial_eq)
    next
      case (Some k)
      then have "partial_hit L cols k" by (auto simp: find_Some_iff)
      then have "find (re_search L k) cols \<noteq> None" by (simp add: partial_hit_find)
      with ex Some show ?thesis by (simp add: find_col_def find_exact_eq find_partial_eq)
    qed
  qed
next
  fix k show "exact_hit L cols k \<longleftrightarrow> (\<exists>c. c \<in> set cols \<and> str_lower L c = str_lower L k)"
    by (auto simp: exact_hit_def list_ex_iff)
next
  fix k show "partial_hit L cols k \<longleftrightarrow> (\<exists>c. c \<in> set cols \<and> re_search L k c)"
    by (auto simp: partial_hit_def list_ex_iff)
next
  fix k c show "re_search L k c \<longleftrightarrow>
        (\<exists>pre mid post. c = pre @ mid @ post \<and> list_all2 (re_ieq L) k mid)"
    by (rule re_search_iff)
qed

text \<open>
  The three cases at concrete columns: an exact hit for the third candidate (the later
  of two columns that differ in case only), a partial hit, and no hit.
\<close>

theorem find_col_two_phase_witness:
  "find_col ascii_lib [ascii ''Name'', ascii ''class'', ascii ''CLASS'', ascii ''No.'']
     CANDIDATE_CLASS_COLS = Some (ascii ''CLASS'')
   \<and> find_col ascii_lib [ascii ''Name'', ascii ''class'', ascii ''CLASS'', ascii ''No.'']
     CANDIDATE_NO_COLS = Some (ascii ''No.'')
   \<and> find_col ascii_lib [ascii ''Math'', ascii ''Art''] CANDIDATE_NAME_COLS = None"
proof -
  let ?cols = "[ascii ''Name'', ascii ''class'', ascii ''CLASS'', ascii ''No.'']"
  have e1: "find (exact_hit ascii_lib ?cols) CANDIDATE_CLASS_COLS = Some (ascii ''Class'')"
    by (simp add: exact_hit_def CANDIDATE_CLASS_COLS_def lib_defs)
  have l1: "last (filter (\<lambda>c. str_lower ascii_lib c = str_lower ascii_lib (ascii ''Class'')) ?cols)
              = ascii ''CLASS''"
    by (simp add: lib_defs)
  have c1: "find_col ascii_lib ?cols CANDIDATE_CLASS_COLS = Some (ascii ''CLASS'')"
    using find_col_two_phase [of ascii_lib ?cols CANDIDATE_CLASS_COLS] e1 l1 by auto
  have e2: "find (exact_hit ascii_lib ?cols) CANDIDATE_NO_COLS = None"
    by (simp add: exact_hit_def CANDIDATE_NO_COLS_def lib_defs)
  have p2: "find (partial_hit ascii_lib ?cols) CANDIDATE_NO_COLS = Some (ascii ''No'')"
    by (simp add: partial_hit_def CANDIDATE_NO_COLS_def re_match_here_def lib_defs)
  have f2: "find (re_search ascii_lib (ascii ''No'')) ?cols = Some (ascii ''No.'')"
    by (simp add: re_match_here_def lib_defs)
  have c2: "find_col ascii_lib ?cols CANDIDATE_NO_COLS = Some (ascii ''No.'')"
    using find_col_two_phase [of ascii_lib ?cols CANDIDATE_NO_COLS] e2 p2 f2 by auto
  have e3: "find (exact_hit ascii_lib [ascii ''Math'', ascii ''Art'']) CANDIDATE_NAME_COLS = None"
    by (simp add: exact_hit_def CANDIDATE_NAME_COLS_def lib_defs)
  have p3: "find (partial_hit ascii_lib [ascii ''Math'', ascii ''Art'']) CANDIDATE_NAME_COLS = None"
    by (simp add: partial_hit_def CANDIDATE_NAME_COLS_def re_match_here_def lib_defs)
  have c3: "find_col ascii_lib [ascii ''Math'', ascii ''Art''] CANDIDATE_NAME_COLS = None"
    using find_col_two_phase [of ascii_lib "[ascii ''Math'', ascii ''Art'']" CANDIDATE_NAME_COLS] e3 p3
    by blast
  from c1 c2 c3 show ?thesis by blast
qed

section \<open>Text normalisation\<close>

text \<open>
  Claim C10. \<open>normalize_text\<close> maps \<open>None\<close> to the empty string and every other
  value to the NFC form of its string form (which for a string is the string itself).
  It is idempotent, given the two facts about NFC normalisation that the Unicode
  standard guarantees: the empty string is in normal form, and normalising twice is
  normalising once.
\<close>

theorem normalize_text_total_idempotent:
  "normalize_text L PyNone = []
   \<and> (\<forall>v. v \<noteq> PyNone \<longrightarrow> normalize_text L v = nfc L (str_of L v))
   \<and> (\<forall>s. str_of L (PyStr s) = s)
   \<and> (nfc L [] = [] \<and> (\<forall>s. nfc L (nfc L s) = nfc L s) \<longrightarrow>
        (\<forall>x. normalize_text L (PyStr (normalize_text L x)) = normalize_text L x))"
  by (auto simp: normalize_text_def str_of_def split: pyval.splits)


theorem normalize_text_total_idempotent_witness:
  "normalize_text ascii_lib (PyStr (normalize_text ascii_lib (PyObj 12)))
     = normalize_text ascii_lib (PyObj 12)
   \<and> normalize_text ascii_lib (PyStr (normalize_text ascii_lib PyNone)) = []"
proof -
  have h: "nfc ascii_lib [] = [] \<and> (\<forall>s. nfc ascii_lib (nfc ascii_lib s) = nfc ascii_lib s)"
    by (simp add: ascii_lib_def)
  have n: "normalize_text ascii_lib PyNone = []"
    using normalize_text_total_idempotent [of ascii_lib] by blast
  have i: "\<forall>x. normalize_text ascii_lib (PyStr (normalize_text ascii_lib x))
              = normalize_text ascii_lib x"
    using normalize_text_total_idempotent [of ascii_lib] h by blast
  from i n show ?thesis by metis
qed

section \<open>The shape of a run\<close>

lemma fst_after [simp]: "fst (after t r) = t @ fst r"
  by (simp add: after_def)

lemma snd_after [simp]: "snd (after t r) = snd r"
  by (simp add: after_def)

lemma file_opens_append [simp]: "file_opens (a @ b) = file_opens a @ file_opens b"
  by (simp add: file_opens_def)

lemma previews_append [simp]: "previews (a @ b) = previews a @ previews b"
  by (simp add: previews_def)

lemma downloads_append [simp]: "downloads (a @ b) = downloads a @ downloads b"
  by (simp add: downloads_def)

lemma file_opens_Nil [simp]: "file_opens [] = []"
  by (simp add: file_opens_def)

lemma previews_Nil [simp]: "previews [] = []"
  by (simp add: previews_def)

lemma downloads_Nil [simp]: "downloads [] = []"
  by (simp add: downloads_def)

lemma file_opens_Cons [simp]:
  "file_opens (e # t) =
     (case e of ReadExcel p \<Rightarrow> [p] | LoadWorkbook p \<Rightarrow> [p] | _ \<Rightarrow> []) @ file_opens t"
  by (simp add: file_opens_def)

lemma previews_Cons [simp]:
  "previews (e # t) = (case e of ShowFrame fr h b \<Rightarrow> [fr] | _ \<Rightarrow> []) @ previews t"
  by (simp add: previews_def)

lemma downloads_Cons [simp]:
  "downloads (e # t) = (case e of Download d n m \<Rightarrow> [(d, n, m)] | _ \<Rightarrow> []) @ downloads t"
  by (simp add: downloads_def)

lemma export_shape_crash [simp]: "export_shape L f (t, Crashed e) \<longleftrightarrow> downloads t = []"
  by (auto simp: export_shape_def)

lemma export_shape_stop [simp]: "export_shape L f (t, Stopped) \<longleftrightarrow> downloads t = []"
  by (auto simp: export_shape_def)

lemma export_shape_after: "export_shape L f r \<Longrightarrow> downloads t = [] \<Longrightarrow> export_shape L f (after t r)"
  by (auto simp: export_shape_def)

lemma export_shape_export: "export_shape L f (stage_export L f c v)"
  by (cases "build_formatted_excel L v f c") (auto simp: export_shape_def stage_export_def download_name_def)

lemma export_shape_display: "export_shape L f (stage_display L f c d)"
  unfolding stage_display_def Let_def
  by (auto intro!: export_shape_after export_shape_export)

lemma export_shape_filter: "export_shape L f (stage_filter L E f df opts)"
  unfolding stage_filter_def Let_def
  by (auto intro!: export_shape_after export_shape_display split: option.split sum.split)

lemma export_shape_columns: "export_shape L f (stage_columns L E f p df_raw)"
  unfolding stage_columns_def Let_def
  by (auto intro!: export_shape_after export_shape_filter split: sum.split)

lemma export_shape_run:
  "\<exists>f. export_shape L f (run L E)"
proof (cases "selectbox (excel_files_sorted L (listdir E)) (file_pick E)")
  case None
  then show ?thesis by (auto simp: run_def Let_def after_def export_shape_def split: option.split)
next
  case (Some f)
  then have "export_shape L f (run L E)"
    unfolding run_def Let_def
    by (auto intro!: export_shape_after export_shape_columns split: sum.split)
  then show ?thesis ..
qed

subsection \<open>file opens\<close>

lemma stage_export_opens [simp]: "file_opens (fst (stage_export L f c v)) = []"
  by (simp add: stage_export_def split: sum.split)

lemma stage_display_opens [simp]: "file_opens (fst (stage_display L f c d)) = []"
  by (simp add: stage_display_def Let_def)

lemma stage_filter_opens [simp]: "file_opens (fst (stage_filter L E f df opts)) = []"
  by (simp add: stage_filter_def Let_def split: option.split sum.split)

lemma stage_columns_opens [simp]: "file_opens (fst (stage_columns L E f p df_raw)) = [p]"
  by (simp add: stage_columns_def Let_def split: sum.split)

subsection \<open>select boxes\<close>

lemma stage_export_selects [simp]:
  "SelectFile x \<notin> set (fst (stage_export L f c v))" "SelectColumn x \<notin> set (fst (stage_export L f c v))"
  by (simp_all add: stage_export_def split: sum.split)

lemma stage_display_selects [simp]:
  "SelectFile x \<notin> set (fst (stage_display L f c d))" "SelectColumn x \<notin> set (fst (stage_display L f c d))"
  by (simp_all add: stage_display_def Let_def)

lemma stage_filter_select_file [simp]: "SelectFile x \<notin> set (fst (stage_filter L E f df opts))"
  by (simp add: stage_filter_def Let_def split: option.split sum.split)

lemma stage_filter_select_column [simp]:
  "SelectColumn x \<in> set (fst (stage_filter L E f df opts)) \<longleftrightarrow> x = opts"
  by (auto simp: stage_filter_def Let_def split: option.split sum.split)

lemma stage_columns_select_file [simp]: "SelectFile x \<notin> set (fst (stage_columns L E f p df_raw))"
  by (simp add: stage_columns_def Let_def split: sum.split)

subsection \<open>run\<close>

lemma run_no_files:
  "excel_files_sorted L (listdir E) = [] \<Longrightarrow>
   run L E = ([Makedirs DATA_DIR, Listdir DATA_DIR, SidebarHeader, ErrorNoFiles], Stopped)"
  by (simp add: run_def after_def)

lemma selectbox_Some: "selectbox opts i = Some x \<Longrightarrow> opts \<noteq> []"
  by (auto simp: selectbox_def split: if_splits)

lemma selectbox_nonempty: "opts \<noteq> [] \<Longrightarrow> \<exists>x. selectbox opts i = Some x \<and> x \<in> set opts"
  by (auto simp: selectbox_def)

lemma selectbox_None: "selectbox opts i = None \<longleftrightarrow> opts = []"
  by (simp add: selectbox_def)

lemma run_load_failure:
  "selectbox (excel_files_sorted L (listdir E)) (file_pick E) = Some f \<Longrightarrow>
   read_excel E (DATA_DIR @ ascii ''/'' @ f) = Inl msg \<Longrightarrow>
   run L E = ([Makedirs DATA_DIR, Listdir DATA_DIR, SidebarHeader,
               SelectFile (excel_files_sorted L (listdir E)),
               ReadExcel (DATA_DIR @ ascii ''/'' @ f),
               ErrorLoad (load_error_prefix @ msg)], Stopped)"
  by (frule selectbox_Some) (simp add: run_def after_def Let_def)

lemma run_loaded:
  "selectbox (excel_files_sorted L (listdir E)) (file_pick E) = Some f \<Longrightarrow>
   read_excel E (DATA_DIR @ ascii ''/'' @ f) = Inr df_raw \<Longrightarrow>
   run L E = after [Makedirs DATA_DIR, Listdir DATA_DIR, SidebarHeader,
               SelectFile (excel_files_sorted L (listdir E)),
               ReadExcel (DATA_DIR @ ascii ''/'' @ f)]
              (stage_columns L E f (DATA_DIR @ ascii ''/'' @ f) df_raw)"
  by (frule selectbox_Some) (simp add: run_def after_def Let_def)

lemma run_file_opens:
  "file_opens (fst (run L E)) =
     (case selectbox (excel_files_sorted L (listdir E)) (file_pick E) of
        None \<Rightarrow> []
      | Some f \<Rightarrow>
          (case read_excel E (DATA_DIR @ ascii ''/'' @ f) of
             Inl msg \<Rightarrow> [DATA_DIR @ ascii ''/'' @ f]
           | Inr df_raw \<Rightarrow> [DATA_DIR @ ascii ''/'' @ f, DATA_DIR @ ascii ''/'' @ f]))"
proof (cases "selectbox (excel_files_sorted L (listdir E)) (file_pick E)")
  case None
  then have "excel_files_sorted L (listdir E) = []" by (simp add: selectbox_None)
  then show ?thesis using None by (simp add: run_no_files)
next
  case (Some f)
  show ?thesis
  proof (cases "read_excel E (DATA_DIR @ ascii ''/'' @ f)")
    case (Inl msg)
    with Some show ?thesis by (simp add: run_load_failure)
  next
    case (Inr df_raw)
    with Some show ?thesis by (simp add: run_loaded)
  qed
qed

section \<open>Files, load failure and file reads\<close>

lemma run_select_file:
  "SelectFile opts \<in> set (fst (run L E)) \<longleftrightarrow>
     excel_files_sorted L (listdir E) \<noteq> [] \<and> opts = excel_files_sorted L (listdir E)"
proof (cases "selectbox (excel_files_sorted L (listdir E)) (file_pick E)")
  case None
  then have "excel_files_sorted L (listdir E) = []" by (simp add: selectbox_None)
  then show ?thesis by (simp add: run_no_files)
next
  case (Some f)
  then have ne: "excel_files_sorted L (listdir E) \<noteq> []" by (rule selectbox_Some)
  show ?thesis
  proof (cases "read_excel E (DATA_DIR @ ascii ''/'' @ f)")
    case (Inl msg)
    with Some ne show ?thesis by (auto simp: run_load_failure)
  next
    case (Inr df_raw)
    with Some ne show ?thesis by (auto simp: run_loaded)
  qed
qed

text \<open>
  Claim C7. The files offered in the first select box are exactly the names of the
  data directory that end in \<open>.xlsx\<close> or \<open>.xls\<close> once lowercased (each as often as
  the listing has it), in sorted order; the select box is rendered when this list is
  not empty; and when it is empty the run consists of the directory calls, the sidebar
  header and the error message, and stops: nothing is loaded.
\<close>

theorem roster_files_offered:
  "set (excel_files_sorted L names) =
     {f \<in> set names. endswith (str_lower L f) (ascii ''.xlsx'')
                       \<or> endswith (str_lower L f) (ascii ''.xls'')}
   \<and> mset (excel_files_sorted L names) = filter_mset (is_excel_name L) (mset names)
   \<and> sorted (excel_files_sorted L names)
   \<and> (\<forall>opts. SelectFile opts \<in> set (fst (run L E)) \<longrightarrow> opts = excel_files_sorted L (listdir E))
   \<and> (excel_files_sorted L (listdir E) \<noteq> [] \<longrightarrow>
        SelectFile (excel_files_sorted L (listdir E)) \<in> set (fst (run L E)))
   \<and> (excel_files_sorted L (listdir E) = [] \<longrightarrow>
        run L E = ([Makedirs DATA_DIR, Listdir DATA_DIR, SidebarHeader, ErrorNoFiles], Stopped)
        \<and> file_opens (fst (run L E)) = [])"
proof (intro conjI allI impI)
  show "set (excel_files_sorted L names) =
     {f \<in> set names. endswith (str_lower L f) (ascii ''.xlsx'')
                       \<or> endswith (str_lower L f) (ascii ''.xls'')}"
    by (auto simp: excel_files_sorted_def is_excel_name_def)
  show "mset (excel_files_sorted L names) = filter_mset (is_excel_name L) (mset names)"
    by (simp add: excel_files_sorted_def)
  show "sorted (excel_files_sorted L names)"
    by (simp add: excel_files_sorted_def)
next
  fix opts assume "SelectFile opts \<in> set (fst (run L E))"
  then show "opts = excel_files_sorted L (listdir E)" by (simp add: run_select_file)
next
  assume "excel_files_sorted L (listdir E) \<noteq> []"
  then show "SelectFile (excel_files_sorted L (listdir E)) \<in> set (fst (run L E))"
    by (simp add: run_select_file)
next
  assume e: "excel_files_sorted L (listdir E) = []"
  then show "run L E = ([Makedirs DATA_DIR, Listdir DATA_DIR, SidebarHeader, ErrorNoFiles], Stopped)"
    by (rule run_no_files)
  from e show "file_opens (fst (run L E)) = []" by (simp add: run_no_files)
qed

theorem roster_files_offered_witness:
  "excel_files_sorted ascii_lib
     [ascii ''notes.txt'', ascii ''w2.xlsx'', ascii ''W1.XLS'', ascii ''w3.xlsx.bak'']
     = [ascii ''W1.XLS'', ascii ''w2.xlsx'']
   \<and> SelectFile [ascii ''W1.XLS'', ascii ''w2.xlsx'']
       \<in> set (fst (run ascii_lib
             (demo_env [ascii ''notes.txt'', ascii ''w2.xlsx'', ascii ''W1.XLS'', ascii ''w3.xlsx.bak'']
                (Inl []) (row174 []) 0)))
   \<and> run ascii_lib (demo_env [ascii ''notes.txt''] (Inl []) (row174 []) 0)
       = ([Makedirs DATA_DIR, Listdir DATA_DIR, SidebarHeader, ErrorNoFiles], Stopped)"
proof -
  let ?names = "[ascii ''notes.txt'', ascii ''w2.xlsx'', ascii ''W1.XLS'', ascii ''w3.xlsx.bak'']"
  have a: "excel_files_sorted ascii_lib ?names = [ascii ''W1.XLS'', ascii ''w2.xlsx'']"
    by (simp add: excel_files_sorted_def is_excel_name_def endswith_def lib_defs)
  have b: "excel_files_sorted ascii_lib (listdir (demo_env ?names (Inl []) (row174 []) 0)) \<noteq> []"
    using a by (simp add: demo_env_def)
  have c: "excel_files_sorted ascii_lib (listdir (demo_env [ascii ''notes.txt''] (Inl []) (row174 []) 0)) = []"
    by (simp add: demo_env_def excel_files_sorted_def is_excel_name_def endswith_def lib_defs)
  from roster_files_offered [of ascii_lib ?names "demo_env ?names (Inl []) (row174 []) 0"] b
  have "SelectFile (excel_files_sorted ascii_lib (listdir (demo_env ?names (Inl []) (row174 []) 0)))
          \<in> set (fst (run ascii_lib (demo_env ?names (Inl []) (row174 []) 0)))"
    by blast
  then have d: "SelectFile [ascii ''W1.XLS'', ascii ''w2.xlsx'']
       \<in> set (fst (run ascii_lib (demo_env ?names (Inl []) (row174 []) 0)))"
    using a by (simp add: demo_env_def)
  from roster_files_offered [of ascii_lib "[]" "demo_env [ascii ''notes.txt''] (Inl []) (row174 []) 0"] c
  have e: "run ascii_lib (demo_env [ascii ''notes.txt''] (Inl []) (row174 []) 0)
       = ([Makedirs DATA_DIR, Listdir DATA_DIR, SidebarHeader, ErrorNoFiles], Stopped)"
    by blast
  from a d e show ?thesis by blast
qed

text \<open>
  Claim C5. When \<open>pd.read_excel\<close> raises for the chosen file, the run is the directory
  calls, the sidebar with the file select box, the one attempt to read the file, and
  one error message that carries the text of the exception; then it stops. The file is
  not read again, the workbook is not opened, nothing is filtered, shown or offered for
  download.
\<close>

theorem load_failure_stops:
  "selectbox (excel_files_sorted L (listdir E)) (file_pick E) = Some f
   \<and> read_excel E (DATA_DIR @ ascii ''/'' @ f) = Inl msg \<longrightarrow>
   run L E = ([Makedirs DATA_DIR, Listdir DATA_DIR, SidebarHeader,
               SelectFile (excel_files_sorted L (listdir E)),
               ReadExcel (DATA_DIR @ ascii ''/'' @ f),
               ErrorLoad (load_error_prefix @ msg)], Stopped)
   \<and> file_opens (fst (run L E)) = [DATA_DIR @ ascii ''/'' @ f]
   \<and> previews (fst (run L E)) = []
   \<and> downloads (fst (run L E)) = []"
  by (auto simp: run_load_failure)

theorem load_failure_stops_witness:
  "run ascii_lib (demo_env [ascii ''w1.xlsx''] (Inl (ascii ''File is not a zip file'')) (row174 []) 0)
     = ([Makedirs (ascii ''./data''), Listdir (ascii ''./data''), SidebarHeader,
         SelectFile [ascii ''w1.xlsx''],
         ReadExcel (ascii ''./data/w1.xlsx''),
         ErrorLoad (load_error_prefix @ ascii ''File is not a zip file'')], Stopped)"
proof -
  let ?E = "demo_env [ascii ''w1.xlsx''] (Inl (ascii ''File is not a zip file'')) (row174 []) 0"
  have f: "excel_files_sorted ascii_lib (listdir ?E) = [ascii ''w1.xlsx'']"
    by (simp add: demo_env_def excel_files_sorted_def is_excel_name_def endswith_def lib_defs)
  have a: "selectbox (excel_files_sorted ascii_lib (listdir ?E)) (file_pick ?E) = Some (ascii ''w1.xlsx'')"
    unfolding f by (simp add: selectbox_def demo_env_def)
  have b: "read_excel ?E (DATA_DIR @ ascii ''/'' @ ascii ''w1.xlsx'') = Inl (ascii ''File is not a zip file'')"
    by (simp add: demo_env_def)
  from load_failure_stops [of ascii_lib ?E "ascii ''w1.xlsx''" "ascii ''File is not a zip file''"] a b
  have "run ascii_lib ?E = ([Makedirs DATA_DIR, Listdir DATA_DIR, SidebarHeader,
               SelectFile (excel_files_sorted ascii_lib (listdir ?E)),
               ReadExcel (DATA_DIR @ ascii ''/'' @ ascii ''w1.xlsx''),
               ErrorLoad (load_error_prefix @ ascii ''File is not a zip file'')], Stopped)"
    by blast
  then show ?thesis unfolding f by (simp add: DATA_DIR_def ascii_def)
qed

text \<open>
  Claim C6, as the code has it. A run first creates and lists the data directory. It
  opens no file when no roster file is offered; it opens the chosen file once when
  \<open>pd.read_excel\<close> fails; and it opens it twice when the load succeeds, once with
  \<open>pd.read_excel\<close> and once more with \<open>load_workbook\<close> to read row 174.
\<close>

theorem chosen_file_opened_twice:
  "take 2 (fst (run L E)) = [Makedirs DATA_DIR, Listdir DATA_DIR]
   \<and> file_opens (fst (run L E)) =
     (case selectbox (excel_files_sorted L (listdir E)) (file_pick E) of
        None \<Rightarrow> []
      | Some f \<Rightarrow>
          (case read_excel E (DATA_DIR @ ascii ''/'' @ f) of
             Inl msg \<Rightarrow> [DATA_DIR @ ascii ''/'' @ f]
           | Inr df_raw \<Rightarrow> [DATA_DIR @ ascii ''/'' @ f, DATA_DIR @ ascii ''/'' @ f]))"
  by (simp add: run_file_opens) (simp add: run_def Let_def)

theorem chosen_file_opened_twice_witness:
  "file_opens (fst (run ascii_lib (demo_env [ascii ''w1.xlsx''] (Inl []) (row174 []) 0)))
     = [ascii ''./data/w1.xlsx'']"
proof -
  let ?E = "demo_env [ascii ''w1.xlsx''] (Inl []) (row174 []) 0"
  have f: "excel_files_sorted ascii_lib (listdir ?E) = [ascii ''w1.xlsx'']"
    by (simp add: demo_env_def excel_files_sorted_def is_excel_name_def endswith_def lib_defs)
  have a: "selectbox (excel_files_sorted ascii_lib (listdir ?E)) (file_pick ?E) = Some (ascii ''w1.xlsx'')"
    unfolding f by (simp add: selectbox_def demo_env_def)
  have b: "read_excel ?E (DATA_DIR @ ascii ''/'' @ ascii ''w1.xlsx'') = Inl []"
    by (simp add: demo_env_def)
  show ?thesis
    using chosen_file_opened_twice [of ascii_lib ?E] a b by (simp add: DATA_DIR_def ascii_def)
qed

text \<open>
  The claim as stated fails on a file that loads: the run opens it twice.
\<close>

theorem one_shot_read_counterexample:
  "file_opens (fst (run ascii_lib
      (demo_env [ascii ''w1.xlsx''] (Inr \<lparr>df_columns = [], df_rows = []\<rparr>) (row174 []) 0)))
     = [ascii ''./data/w1.xlsx'', ascii ''./data/w1.xlsx'']"
proof -
  let ?E = "demo_env [ascii ''w1.xlsx''] (Inr \<lparr>df_columns = [], df_rows = []\<rparr>) (row174 []) 0"
  have f: "excel_files_sorted ascii_lib (listdir ?E) = [ascii ''w1.xlsx'']"
    by (simp add: demo_env_def excel_files_sorted_def is_excel_name_def endswith_def lib_defs)
  have a: "selectbox (excel_files_sorted ascii_lib (listdir ?E)) (file_pick ?E) = Some (ascii ''w1.xlsx'')"
    unfolding f by (simp add: selectbox_def demo_env_def)
  have b: "read_excel ?E (DATA_DIR @ ascii ''/'' @ ascii ''w1.xlsx'') = Inr \<lparr>df_columns = [], df_rows = []\<rparr>"
    by (simp add: demo_env_def)
  show ?thesis
    using run_file_opens [of ascii_lib ?E] a b by (simp add: DATA_DIR_def ascii_def)
qed

section \<open>Reading row 174\<close>

lemma map_of_foldl_dict_set:
  "map_of (foldl (\<lambda>d x. dict_set d (kf x) (vf x)) d0 xs) k =
     (case filter (\<lambda>x. kf x = k) xs of [] \<Rightarrow> map_of d0 k | y # ys \<Rightarrow> Some (vf (last (y # ys))))"
proof (induction xs rule: rev_induct)
  case Nil
  then show ?case by simp
next
  case (snoc x xs)
  then show ?case
    by (cases "filter (\<lambda>x. kf x = k) xs") (auto simp: map_of_dict_set)
qed

lemma map_of_foldl_dict_set_Some:
  "filter (\<lambda>x. kf x = k) xs \<noteq> [] \<Longrightarrow>
   map_of (foldl (\<lambda>d x. dict_set d (kf x) (vf x)) d0 xs) k
     = Some (vf (last (filter (\<lambda>x. kf x = k) xs)))"
  by (cases "filter (\<lambda>x. kf x = k) xs") (simp_all add: map_of_foldl_dict_set)

lemma keys_dict_set: "fst ` set (dict_set d k v) = insert k (fst ` set d)"
  by (induction d) auto

lemma distinct_dict_set: "distinct (map fst d) \<Longrightarrow> distinct (map fst (dict_set d k v))"
proof (induction d)
  case Nil
  then show ?case by simp
next
  case (Cons p ps)
  have "fst p \<noteq> k \<Longrightarrow> fst p \<notin> fst ` set (dict_set ps k v)"
    using Cons.prems by (simp add: keys_dict_set)
  with Cons show ?case by auto
qed

lemma keys_foldl_dict_set:
  "fst ` set (foldl (\<lambda>d x. dict_set d (kf x) (vf x)) d0 xs) = fst ` set d0 \<union> kf ` set xs"
  by (induction xs rule: rev_induct) (auto simp: keys_dict_set)

lemma distinct_foldl_dict_set:
  "distinct (map fst d0) \<Longrightarrow> distinct (map fst (foldl (\<lambda>d x. dict_set d (kf x) (vf x)) d0 xs))"
  by (induction xs rule: rev_induct) (auto simp: distinct_dict_set)

lemma sorted_le_last: "sorted xs \<Longrightarrow> x \<in> set xs \<Longrightarrow> x \<le> last xs" for x :: nat
  by (induction xs) (auto split: if_splits)

lemma last_occurrence:
  assumes "i < n"
  shows "\<exists>j. i \<le> j \<and> j < n \<and> kf j = kf i \<and> (\<forall>k. j < k \<and> k < n \<longrightarrow> kf k \<noteq> kf i)
             \<and> filter (\<lambda>x. kf x = kf i) [0 ..< n] \<noteq> []
             \<and> last (filter (\<lambda>x. kf x = kf i) [0 ..< n]) = j"
proof -
  let ?js = "filter (\<lambda>x. kf x = kf i) [0 ..< n]"
  from assms have mem: "i \<in> set ?js" by simp
  then have ne: "?js \<noteq> []" by (metis empty_iff empty_set)
  then have l: "last ?js \<in> set ?js" by (rule last_in_set)
  have s: "sorted ?js" by (simp add: sorted_wrt_filter)
  have "i \<le> last ?js" using s mem by (rule sorted_le_last)
  moreover have "last ?js < n" "kf (last ?js) = kf i" using l by auto
  moreover have "\<forall>k. last ?js < k \<and> k < n \<longrightarrow> kf k \<noteq> kf i"
  proof (intro allI impI notI)
    fix k assume k: "last ?js < k \<and> k < n" and e: "kf k = kf i"
    then have "k \<in> set ?js" by simp
    with s have "k \<le> last ?js" by (rule sorted_le_last)
    with k show False by simp
  qed
  ultimately show ?thesis using ne by blast
qed

lemma row_values_dict:
  assumes n: "n = min (length headers) (length vals)"
  shows "distinct (map fst (foldl (\<lambda>d i. dict_set d (headers ! i) (vals ! i)) [] [0 ..< n]))"
    and "set (map fst (foldl (\<lambda>d i. dict_set d (headers ! i) (vals ! i)) [] [0 ..< n]))
           = set (take n headers)"
    and "i < n \<Longrightarrow> \<exists>j. i \<le> j \<and> j < n \<and> headers ! j = headers ! i
             \<and> (\<forall>k. j < k \<and> k < n \<longrightarrow> headers ! k \<noteq> headers ! i)
             \<and> dict_get (foldl (\<lambda>d i. dict_set d (headers ! i) (vals ! i)) [] [0 ..< n]) (headers ! i)
                 = Some (vals ! j)"
    and "h \<notin> set (take n headers) \<Longrightarrow>
           dict_get (foldl (\<lambda>d i. dict_set d (headers ! i) (vals ! i)) [] [0 ..< n]) h = None"
proof -
  let ?m = "foldl (\<lambda>d i. dict_set d (headers ! i) (vals ! i)) [] [0 ..< n]"
  show "distinct (map fst ?m)" by (rule distinct_foldl_dict_set) simp
  have len: "n \<le> length headers" using n by simp
  have keys: "set (map fst ?m) = (\<lambda>i. headers ! i) ` {0 ..< n}"
    by (simp add: keys_foldl_dict_set)
  also have "\<dots> = set (take n headers)"
    using len by (rule nth_image)
  finally show k2: "set (map fst ?m) = set (take n headers)" .
  {
    assume "i < n"
    from last_occurrence [OF this, of "\<lambda>i. headers ! i"]
    obtain j where j: "i \<le> j" "j < n" "headers ! j = headers ! i"
      "\<forall>k. j < k \<and> k < n \<longrightarrow> headers ! k \<noteq> headers ! i"
      "filter (\<lambda>x. headers ! x = headers ! i) [0 ..< n] \<noteq> []"
      "last (filter (\<lambda>x. headers ! x = headers ! i) [0 ..< n]) = j"
      by blast
    have "dict_get ?m (headers ! i) = Some (vals ! j)"
      using j(5,6) unfolding dict_get_def
      by (simp add: map_of_foldl_dict_set_Some)
    with j show "\<exists>j. i \<le> j \<and> j < n \<and> headers ! j = headers ! i
             \<and> (\<forall>k. j < k \<and> k < n \<longrightarrow> headers ! k \<noteq> headers ! i)
             \<and> dict_get ?m (headers ! i) = Some (vals ! j)" by blast
  }
  {
    assume "h \<notin> set (take n headers)"
    then have "h \<notin> set (map fst ?m)" using k2 by simp
    then show "dict_get ?m h = None" unfolding dict_get_def by (simp add: map_of_eq_None_iff)
  }
qed

lemma row_values_for_headers_ok:
  assumes "load p = Inr wb" "select_sheet wb sheet = Inr ws" "py_split 58 rng = [a, b]"
    "column_index_from_string L a = Inr s" "column_index_from_string L b = Inr e" "1 \<le> row"
  shows "read_excel_row_values_for_headers L load p sheet rng row headers =
     Inr (foldl (\<lambda>d i. dict_set d (headers ! i)
                   (map (\<lambda>col_idx. to_float_or_zero L (ws row col_idx)) [s ..< e + 1] ! i))
            [] [0 ..< min (length headers) (e + 1 - s)])"
  using assms by (simp add: read_excel_row_values_for_headers_def Let_def del: upt_Suc)

lemma row_values_for_headers_spec:
  assumes "load p = Inr wb" "select_sheet wb sheet = Inr ws" "py_split 58 rng = [a, b]"
    "column_index_from_string L a = Inr s" "column_index_from_string L b = Inr e" "1 \<le> row"
  shows "\<exists>m. read_excel_row_values_for_headers L load p sheet rng row headers = Inr m
      \<and> distinct (map fst m)
      \<and> set (map fst m) = set (take (min (length headers) (e + 1 - s)) headers)
      \<and> (\<forall>i < min (length headers) (e + 1 - s).
            \<exists>j. i \<le> j \<and> j < min (length headers) (e + 1 - s) \<and> headers ! j = headers ! i
              \<and> (\<forall>k. j < k \<and> k < min (length headers) (e + 1 - s) \<longrightarrow> headers ! k \<noteq> headers ! i)
              \<and> dict_get m (headers ! i) = Some (to_float_or_zero L (ws row (s + j))))
      \<and> (\<forall>h. h \<notin> set (take (min (length headers) (e + 1 - s)) headers) \<longrightarrow> dict_get m h = None)"
proof -
  let ?vals = "map (\<lambda>col_idx. to_float_or_zero L (ws row col_idx)) [s ..< e + 1]"
  let ?n = "min (length headers) (e + 1 - s)"
  let ?m = "foldl (\<lambda>d i. dict_set d (headers ! i) (?vals ! i)) [] [0 ..< ?n]"
  have n: "?n = min (length headers) (length ?vals)" by (simp del: upt_Suc)
  have r: "read_excel_row_values_for_headers L load p sheet rng row headers = Inr ?m"
    using assms by (rule row_values_for_headers_ok)
  have v: "?vals ! j = to_float_or_zero L (ws row (s + j))" if "j < ?n" for j
  proof -
    from that have lt: "s + j < e + 1" by arith
    then have "[s ..< e + 1] ! j = s + j" by (rule nth_upt)
    moreover from lt have "j < length [s ..< e + 1]" by (simp del: upt_Suc)
    ultimately show ?thesis by (simp del: upt_Suc)
  qed
  have "\<forall>i < ?n. \<exists>j. i \<le> j \<and> j < ?n \<and> headers ! j = headers ! i
              \<and> (\<forall>k. j < k \<and> k < ?n \<longrightarrow> headers ! k \<noteq> headers ! i)
              \<and> dict_get ?m (headers ! i) = Some (to_float_or_zero L (ws row (s + j)))"
  proof (intro allI impI)
    fix i assume "i < ?n"
    from row_values_dict(3) [OF n this]
    obtain j where j: "i \<le> j" "j < ?n" "headers ! j = headers ! i"
      "\<forall>k. j < k \<and> k < ?n \<longrightarrow> headers ! k \<noteq> headers ! i"
      "dict_get ?m (headers ! i) = Some (?vals ! j)" by blast
    from j(2) have "?vals ! j = to_float_or_zero L (ws row (s + j))" by (rule v)
    with j(5) have "dict_get ?m (headers ! i) = Some (to_float_or_zero L (ws row (s + j)))"
      by simp
    with j(1-4) show "\<exists>j. i \<le> j \<and> j < ?n \<and> headers ! j = headers ! i
              \<and> (\<forall>k. j < k \<and> k < ?n \<longrightarrow> headers ! k \<noteq> headers ! i)
              \<and> dict_get ?m (headers ! i) = Some (to_float_or_zero L (ws row (s + j)))"
      by (intro exI [of _ j] conjI)
  qed
  moreover have "\<forall>h. h \<notin> set (take ?n headers) \<longrightarrow> dict_get ?m h = None"
    using row_values_dict(4) [OF n] by blast
  moreover note r row_values_dict(1) [OF n] row_values_dict(2) [OF n]
  ultimately show ?thesis
    by (intro exI [of _ ?m] conjI)
qed


lemmas sheet_defs = select_sheet_def sheet_by_name_def column_index_from_string_def
  to_float_or_zero_def SHEET_NAME_def USECOLS_RANGE_def TARGET_SUM_ROW_def row174_def

text \<open>
  What the function returns. Once the workbook is open and the column range is
  read, the function returns a dictionary (it raises nothing more): its keys are the
  labels of the first \<open>n\<close> headers, \<open>n\<close> the smaller of the number of headers and
  the number of columns of the range; each of these headers is mapped to the converted
  cell of the last column among the first \<open>n\<close> that carries the same label, which is
  its own column when the label does not occur again; and a label that is not among the
  first \<open>n\<close> headers is absent. The conversion gives \<open>float(str(v).strip())\<close>, and
  \<open>0.0\<close> when that fails.
\<close>

lemma row_values_for_headers_total:
  "(\<forall>v x. float_of L (py_strip L (str_of L v)) = Some x \<longrightarrow> to_float_or_zero L v = x)
   \<and> (\<forall>v. float_of L (py_strip L (str_of L v)) = None \<longrightarrow> to_float_or_zero L v = FNum 0)
   \<and> (load p = Inr wb \<and> select_sheet wb sheet = Inr ws \<and> py_split 58 rng = [a, b]
        \<and> column_index_from_string L a = Inr s \<and> column_index_from_string L b = Inr e
        \<and> 1 \<le> row \<longrightarrow>
       (\<exists>m. read_excel_row_values_for_headers L load p sheet rng row headers = Inr m
          \<and> distinct (map fst m)
          \<and> set (map fst m) = set (take (min (length headers) (e + 1 - s)) headers)
          \<and> (\<forall>i < min (length headers) (e + 1 - s).
                \<exists>j. i \<le> j \<and> j < min (length headers) (e + 1 - s) \<and> headers ! j = headers ! i
                  \<and> (\<forall>k. j < k \<and> k < min (length headers) (e + 1 - s)
                         \<longrightarrow> headers ! k \<noteq> headers ! i)
                  \<and> dict_get m (headers ! i) = Some (to_float_or_zero L (ws row (s + j))))
          \<and> (\<forall>h. h \<notin> set (take (min (length headers) (e + 1 - s)) headers)
                \<longrightarrow> dict_get m h = None)))"
proof (intro conjI allI impI)
  fix v x assume "float_of L (py_strip L (str_of L v)) = Some x"
  then show "to_float_or_zero L v = x" by (simp add: to_float_or_zero_def)
next
  fix v assume "float_of L (py_strip L (str_of L v)) = None"
  then show "to_float_or_zero L v = FNum 0" by (simp add: to_float_or_zero_def)
next
  assume "load p = Inr wb \<and> select_sheet wb sheet = Inr ws \<and> py_split 58 rng = [a, b]
        \<and> column_index_from_string L a = Inr s \<and> column_index_from_string L b = Inr e
        \<and> 1 \<le> row"
  then show "\<exists>m. read_excel_row_values_for_headers L load p sheet rng row headers = Inr m
          \<and> distinct (map fst m)
          \<and> set (map fst m) = set (take (min (length headers) (e + 1 - s)) headers)
          \<and> (\<forall>i < min (length headers) (e + 1 - s).
                \<exists>j. i \<le> j \<and> j < min (length headers) (e + 1 - s) \<and> headers ! j = headers ! i
                  \<and> (\<forall>k. j < k \<and> k < min (length headers) (e + 1 - s)
                         \<longrightarrow> headers ! k \<noteq> headers ! i)
                  \<and> dict_get m (headers ! i) = Some (to_float_or_zero L (ws row (s + j))))
          \<and> (\<forall>h. h \<notin> set (take (min (length headers) (e + 1 - s)) headers)
                \<longrightarrow> dict_get m h = None)"
    using row_values_for_headers_spec [of load p wb sheet ws rng a b L s e row headers] by blast
qed

lemma row_values_for_headers_total_example:
  "\<exists>m. read_excel_row_values_for_headers ascii_lib
          (\<lambda>p. Inr [(ascii ''Sheet1'', row174 [PyNone, PyObj 2])])
          (ascii ''./data/w1.xlsx'') SHEET_NAME USECOLS_RANGE TARGET_SUM_ROW
          [ascii ''Class'', ascii ''Math''] = Inr m
       \<and> dict_get m (ascii ''Math'') = Some (FNum 2)
       \<and> dict_get m (ascii ''Art'') = None"
proof -
  let ?ws = "row174 [PyNone, PyObj 2]"
  let ?wb = "[(ascii ''Sheet1'', ?ws)]"
  let ?hs = "[ascii ''Class'', ascii ''Math'']"
  have pre: "(\<lambda>p. Inr ?wb) (ascii ''./data/w1.xlsx'') = Inr ?wb \<and> select_sheet ?wb SHEET_NAME = Inr ?ws
      \<and> py_split 58 USECOLS_RANGE = [ascii ''A'', ascii ''AG'']
      \<and> column_index_from_string ascii_lib (ascii ''A'') = Inr 1
      \<and> column_index_from_string ascii_lib (ascii ''AG'') = Inr 33
      \<and> 1 \<le> TARGET_SUM_ROW"
    by (simp add: sheet_defs lib_defs)
  from row_values_for_headers_total
    [of ascii_lib "\<lambda>p. Inr ?wb" "ascii ''./data/w1.xlsx''" ?wb SHEET_NAME ?ws USECOLS_RANGE
        "ascii ''A''" "ascii ''AG''" 1 33 TARGET_SUM_ROW ?hs] pre
  obtain m where m: "read_excel_row_values_for_headers ascii_lib (\<lambda>p. Inr ?wb)
        (ascii ''./data/w1.xlsx'') SHEET_NAME USECOLS_RANGE TARGET_SUM_ROW ?hs = Inr m"
    and each: "\<forall>i < min (length ?hs) (33 + 1 - 1).
                \<exists>j. i \<le> j \<and> j < min (length ?hs) (33 + 1 - 1) \<and> ?hs ! j = ?hs ! i
                  \<and> (\<forall>k. j < k \<and> k < min (length ?hs) (33 + 1 - 1) \<longrightarrow> ?hs ! k \<noteq> ?hs ! i)
                  \<and> dict_get m (?hs ! i) = Some (to_float_or_zero ascii_lib (?ws TARGET_SUM_ROW (1 + j)))"
    and none: "\<forall>h. h \<notin> set (take (min (length ?hs) (33 + 1 - 1)) ?hs) \<longrightarrow> dict_get m h = None"
    by blast
  have "(1::nat) < min (length ?hs) (33 + 1 - 1)" by simp
  with each obtain j where "1 \<le> j" "j < min (length ?hs) (33 + 1 - 1)"
    and d: "dict_get m (?hs ! 1) = Some (to_float_or_zero ascii_lib (?ws TARGET_SUM_ROW (1 + j)))"
    by blast
  then have "j = 1" by simp
  with d have math: "dict_get m (ascii ''Math'') = Some (FNum 2)"
    by (simp add: sheet_defs lib_defs util_defs dec_digits.simps)
  have "ascii ''Art'' \<notin> set (take (min (length ?hs) (33 + 1 - 1)) ?hs)"
    by (simp add: ascii_def)
  with none have "dict_get m (ascii ''Art'') = None" by blast
  with m math show ?thesis by blast
qed

text \<open>
  Claim C9 at two headers with the same label. The docstring of the function promises
  a one-to-one mapping of the row values to the columns of the frame. With the headers
  \<open>a\<close>, \<open>a\<close> and the row cells \<open>1\<close> and \<open>x\<close> the dictionary built by the last line
  of the function holds one entry: the value \<open>0.0\<close> of the second column, under the
  label both columns share. The converted cell of the first column, \<open>1.0\<close>, is lost.
\<close>

theorem row_values_for_headers_equal_labels:
  "read_excel_row_values_for_headers ascii_lib
       (\<lambda>p. Inr [(ascii ''Sheet1'', row174 [PyObj 1, PyStr (ascii ''x'')])])
       (ascii ''./data/w1.xlsx'') SHEET_NAME USECOLS_RANGE TARGET_SUM_ROW
       [ascii ''a'', ascii ''a'']
     = Inr [(ascii ''a'', FNum 0)]
   \<and> to_float_or_zero ascii_lib (row174 [PyObj 1, PyStr (ascii ''x'')] TARGET_SUM_ROW 1) = FNum 1"
proof -
  let ?ws = "row174 [PyObj 1, PyStr (ascii ''x'')]"
  let ?wb = "[(ascii ''Sheet1'', ?ws)]"
  have p1: "(\<lambda>p. Inr ?wb) (ascii ''./data/w1.xlsx'') = Inr ?wb" by simp
  have p2: "select_sheet ?wb SHEET_NAME = Inr ?ws"
    by (simp add: select_sheet_def sheet_by_name_def SHEET_NAME_def)
  have p3: "py_split 58 USECOLS_RANGE = [ascii ''A'', ascii ''AG'']"
    by (simp add: USECOLS_RANGE_def ascii_def)
  have p4: "column_index_from_string ascii_lib (ascii ''A'') = Inr 1"
    by (simp add: column_index_from_string_def lib_defs)
  have p5: "column_index_from_string ascii_lib (ascii ''AG'') = Inr 33"
    by (simp add: column_index_from_string_def lib_defs)
  have p6: "1 \<le> TARGET_SUM_ROW" by (simp add: TARGET_SUM_ROW_def)
  have v1: "to_float_or_zero ascii_lib (?ws TARGET_SUM_ROW 1) = FNum 1"
    by (simp add: sheet_defs lib_defs util_defs dec_digits.simps)
  have v2: "to_float_or_zero ascii_lib (?ws TARGET_SUM_ROW 2) = FNum 0"
    by (simp add: sheet_defs lib_defs util_defs)
  have "read_excel_row_values_for_headers ascii_lib (\<lambda>p. Inr ?wb) (ascii ''./data/w1.xlsx'')
          SHEET_NAME USECOLS_RANGE TARGET_SUM_ROW [ascii ''a'', ascii ''a'']
        = Inr (foldl (\<lambda>d i. dict_set d ([ascii ''a'', ascii ''a''] ! i)
                   (map (\<lambda>col_idx. to_float_or_zero ascii_lib (?ws TARGET_SUM_ROW col_idx)) [1 ..< 33 + 1] ! i))
            [] [0 ..< min (length [ascii ''a'', ascii ''a'']) (33 + 1 - 1)])"
    using row_values_for_headers_ok
      [of "\<lambda>p. Inr ?wb" "ascii ''./data/w1.xlsx''" ?wb SHEET_NAME ?ws USECOLS_RANGE
          "ascii ''A''" "ascii ''AG''" ascii_lib 1 33 TARGET_SUM_ROW "[ascii ''a'', ascii ''a'']",
       OF _ p2 p3 p4 p5 p6]
    by simp
  also have "[0 ..< min (length [ascii ''a'', ascii ''a'']) (33 + 1 - 1)] = [0, 1]"
    by (simp add: upt_conv_Cons)
  also have "foldl (\<lambda>d i. dict_set d ([ascii ''a'', ascii ''a''] ! i)
                   (map (\<lambda>col_idx. to_float_or_zero ascii_lib (?ws TARGET_SUM_ROW col_idx)) [1 ..< 33 + 1] ! i))
            [] [0, 1]
        = [(ascii ''a'', to_float_or_zero ascii_lib (?ws TARGET_SUM_ROW 2))]"
    by (simp add: numeral_2_eq_2 del: upt_Suc)
  finally show ?thesis using v1 v2 by simp
qed

section \<open>The subject choices\<close>

lemma row_values_for_headers_eval:
  assumes "load p = Inr wb" "select_sheet wb sheet = Inr ws" "py_split 58 rng = [a, b]"
    "column_index_from_string L a = Inr s" "column_index_from_string L b = Inr e" "1 \<le> row"
  shows "read_excel_row_values_for_headers L load p sheet rng row headers =
     Inr (foldl (\<lambda>d i. dict_set d (headers ! i) (to_float_or_zero L (ws row (s + i))))
            [] [0 ..< min (length headers) (e + 1 - s)])"
proof -
  let ?vals = "map (\<lambda>col_idx. to_float_or_zero L (ws row col_idx)) [s ..< e + 1]"
  let ?n = "min (length headers) (e + 1 - s)"
  have v: "?vals ! j = to_float_or_zero L (ws row (s + j))" if "j < ?n" for j
  proof -
    from that have lt: "s + j < e + 1" by arith
    then have "[s ..< e + 1] ! j = s + j" by (rule nth_upt)
    moreover from lt have "j < length [s ..< e + 1]" by (simp del: upt_Suc)
    ultimately show ?thesis by (simp del: upt_Suc)
  qed
  have "foldl (\<lambda>d i. dict_set d (headers ! i) (?vals ! i)) [] [0 ..< ?n]
      = foldl (\<lambda>d i. dict_set d (headers ! i) (to_float_or_zero L (ws row (s + i)))) [] [0 ..< ?n]"
  proof (rule foldl_cong)
    fix d i assume "i \<in> set [0 ..< ?n]"
    then have "i < ?n" by simp
    then have "?vals ! i = to_float_or_zero L (ws row (s + i))" by (rule v)
    then show "dict_set d (headers ! i) (?vals ! i)
        = dict_set d (headers ! i) (to_float_or_zero L (ws row (s + i)))" by simp
  qed simp_all
  then show ?thesis
    using row_values_for_headers_ok [of load p wb sheet ws rng a b L s e row headers] assms
    by simp
qed

lemma in_blocked_cols:
  "c \<in> blocked_cols L cols \<longleftrightarrow>
     find_col L cols CANDIDATE_CLASS_COLS = Some c \<or> find_col L cols CANDIDATE_NO_COLS = Some c
     \<or> find_col L cols CANDIDATE_NAME_COLS = Some c"
  by (auto simp: blocked_cols_def somes_def split: option.splits)

lemma in_zero_sum_cols:
  "c \<in> zero_sum_cols m \<longleftrightarrow> (\<exists>v. (c, v) \<in> set m \<and> float_eq v (FNum 0))"
  by (auto simp: zero_sum_cols_def image_iff)

lemma not_zero_sum_dict_get:
  "c \<notin> zero_sum_cols m \<Longrightarrow> dict_get m c = Some v \<Longrightarrow> \<not> float_eq v (FNum 0)"
  by (auto simp: in_zero_sum_cols dict_get_def dest: map_of_SomeD)

lemma filterable_cols_sound:
  "c \<in> set (filterable_cols L cols m) \<Longrightarrow>
     c \<in> set cols \<and> find_col L cols CANDIDATE_CLASS_COLS \<noteq> Some c
     \<and> find_col L cols CANDIDATE_NO_COLS \<noteq> Some c
     \<and> find_col L cols CANDIDATE_NAME_COLS \<noteq> Some c
     \<and> (\<forall>v. dict_get m c = Some v \<longrightarrow> \<not> float_eq v (FNum 0))"
  by (auto simp: filterable_cols_def in_blocked_cols dest: not_zero_sum_dict_get)

lemma stage_columns_failed:
  "read_excel_row_values_for_headers L (load_workbook E) p SHEET_NAME USECOLS_RANGE TARGET_SUM_ROW
     (map (\<lambda>c. py_strip L (str_of L c)) (df_columns df_raw)) = Inl e \<Longrightarrow>
   stage_columns L E f p df_raw = ([LoadWorkbook p], Crashed e)"
  by (simp add: stage_columns_def after_def Let_def)

lemma stage_columns_fallback:
  "read_excel_row_values_for_headers L (load_workbook E) p SHEET_NAME USECOLS_RANGE TARGET_SUM_ROW
     (map (\<lambda>c. py_strip L (str_of L c)) (df_columns df_raw)) = Inr m \<Longrightarrow>
   filterable_cols L (map (\<lambda>c. py_strip L (str_of L c)) (df_columns df_raw)) m = [] \<Longrightarrow>
   stage_columns L E f p df_raw =
     after [LoadWorkbook p, WarnNoFilterable]
       (stage_filter L E f
          \<lparr>df_columns = map (\<lambda>c. py_strip L (str_of L c)) (df_columns df_raw),
           df_rows = df_rows df_raw\<rparr>
          (map (\<lambda>c. py_strip L (str_of L c)) (df_columns df_raw)))"
  by (simp add: stage_columns_def after_def Let_def)

lemma stage_columns_offered:
  "read_excel_row_values_for_headers L (load_workbook E) p SHEET_NAME USECOLS_RANGE TARGET_SUM_ROW
     (map (\<lambda>c. py_strip L (str_of L c)) (df_columns df_raw)) = Inr m \<Longrightarrow>
   filterable_cols L (map (\<lambda>c. py_strip L (str_of L c)) (df_columns df_raw)) m \<noteq> [] \<Longrightarrow>
   stage_columns L E f p df_raw =
     after [LoadWorkbook p]
       (stage_filter L E f
          \<lparr>df_columns = map (\<lambda>c. py_strip L (str_of L c)) (df_columns df_raw),
           df_rows = df_rows df_raw\<rparr>
          (filterable_cols L (map (\<lambda>c. py_strip L (str_of L c)) (df_columns df_raw)) m))"
  by (simp add: stage_columns_def after_def Let_def)

lemma stage_filter_no_warning [simp]:
  "WarnNoFilterable \<notin> set (fst (stage_filter L E f df opts))"
  by (simp add: stage_filter_def stage_display_def stage_export_def Let_def
        split: option.split sum.split)

lemma run_select_column:
  assumes "SelectColumn opts \<in> set (fst (run L E))"
  shows "\<exists>f df_raw m.
       selectbox (excel_files_sorted L (listdir E)) (file_pick E) = Some f
     \<and> read_excel E (DATA_DIR @ ascii ''/'' @ f) = Inr df_raw
     \<and> read_excel_row_values_for_headers L (load_workbook E) (DATA_DIR @ ascii ''/'' @ f)
          SHEET_NAME USECOLS_RANGE TARGET_SUM_ROW
          (map (\<lambda>c. py_strip L (str_of L c)) (df_columns df_raw)) = Inr m
     \<and> (let cols = map (\<lambda>c. py_strip L (str_of L c)) (df_columns df_raw) in
          filterable_cols L cols m \<noteq> [] \<and> opts = filterable_cols L cols m
            \<and> WarnNoFilterable \<notin> set (fst (run L E))
          \<or> filterable_cols L cols m = [] \<and> opts = cols
            \<and> WarnNoFilterable \<in> set (fst (run L E)))"
proof (cases "selectbox (excel_files_sorted L (listdir E)) (file_pick E)")
  case None
  then have "excel_files_sorted L (listdir E) = []" by (simp add: selectbox_None)
  with assms show ?thesis by (simp add: run_no_files)
next
  case (Some f)
  let ?p = "DATA_DIR @ ascii ''/'' @ f"
  show ?thesis
  proof (cases "read_excel E ?p")
    case (Inl msg)
    with Some assms show ?thesis by (simp add: run_load_failure)
  next
    case (Inr df_raw)
    let ?cols = "map (\<lambda>c. py_strip L (str_of L c)) (df_columns df_raw)"
    note r = run_loaded [OF Some Inr]
    show ?thesis
    proof (cases "read_excel_row_values_for_headers L (load_workbook E) ?p
          SHEET_NAME USECOLS_RANGE TARGET_SUM_ROW ?cols")
      case (Inl e)
      with assms r show ?thesis by (simp add: stage_columns_failed)
    next
      case m: (Inr m)
      show ?thesis
      proof (cases "filterable_cols L ?cols m = []")
        case True
        with assms r m have "opts = ?cols" "WarnNoFilterable \<in> set (fst (run L E))"
          by (simp_all add: stage_columns_fallback)
        with Some Inr m True show ?thesis by (simp add: Let_def)
      next
        case False
        with assms r m have "opts = filterable_cols L ?cols m" "WarnNoFilterable \<notin> set (fst (run L E))"
          by (simp_all add: stage_columns_offered)
        with Some Inr m False show ?thesis by (simp add: Let_def)
      qed
    qed
  qed
qed

text \<open>
  What holds of the options by label. Whenever the second select box is rendered, the
  file was loaded and row 174 was read into the dictionary \<open>m\<close>, which holds one value
  per label, and its options are one of two lists. Either they are the filterable
  columns, which are not empty: labels of the frame, none of them detected as the class,
  number or name column, none of them with a value equal to \<open>0.0\<close> in \<open>m\<close>, and no
  warning is shown. Or the filterable columns are empty, the options are all columns of
  the frame, and the warning is shown.
\<close>

lemma subject_choices_exclude_blocked_and_zero:
  "SelectColumn opts \<in> set (fst (run L E)) \<longrightarrow>
   (\<exists>f df_raw m.
       selectbox (excel_files_sorted L (listdir E)) (file_pick E) = Some f
     \<and> read_excel E (DATA_DIR @ ascii ''/'' @ f) = Inr df_raw
     \<and> read_excel_row_values_for_headers L (load_workbook E) (DATA_DIR @ ascii ''/'' @ f)
          SHEET_NAME USECOLS_RANGE TARGET_SUM_ROW
          (map (\<lambda>c. py_strip L (str_of L c)) (df_columns df_raw)) = Inr m
     \<and> (let cols = map (\<lambda>c. py_strip L (str_of L c)) (df_columns df_raw) in
          opts \<noteq> [] \<and> opts = filterable_cols L cols m
            \<and> WarnNoFilterable \<notin> set (fst (run L E))
            \<and> (\<forall>c \<in> set opts.
                  c \<in> set cols
                  \<and> find_col L cols CANDIDATE_CLASS_COLS \<noteq> Some c
                  \<and> find_col L cols CANDIDATE_NO_COLS \<noteq> Some c
                  \<and> find_col L cols CANDIDATE_NAME_COLS \<noteq> Some c
                  \<and> (\<forall>v. dict_get m c = Some v \<longrightarrow> \<not> float_eq v (FNum 0)))
          \<or> filterable_cols L cols m = [] \<and> opts = cols
            \<and> WarnNoFilterable \<in> set (fst (run L E))))"
proof
  assume "SelectColumn opts \<in> set (fst (run L E))"
  from run_select_column [OF this]
  obtain f df_raw m where
    a: "selectbox (excel_files_sorted L (listdir E)) (file_pick E) = Some f"
       "read_excel E (DATA_DIR @ ascii ''/'' @ f) = Inr df_raw"
       "read_excel_row_values_for_headers L (load_workbook E) (DATA_DIR @ ascii ''/'' @ f)
          SHEET_NAME USECOLS_RANGE TARGET_SUM_ROW
          (map (\<lambda>c. py_strip L (str_of L c)) (df_columns df_raw)) = Inr m"
    and b: "(let cols = map (\<lambda>c. py_strip L (str_of L c)) (df_columns df_raw) in
          filterable_cols L cols m \<noteq> [] \<and> opts = filterable_cols L cols m
            \<and> WarnNoFilterable \<notin> set (fst (run L E))
          \<or> filterable_cols L cols m = [] \<and> opts = cols
            \<and> WarnNoFilterable \<in> set (fst (run L E)))"
    by blast
  let ?cols = "map (\<lambda>c. py_strip L (str_of L c)) (df_columns df_raw)"
  from b have "(opts \<noteq> [] \<and> opts = filterable_cols L ?cols m
            \<and> WarnNoFilterable \<notin> set (fst (run L E))
            \<and> (\<forall>c \<in> set opts.
                  c \<in> set ?cols
                  \<and> find_col L ?cols CANDIDATE_CLASS_COLS \<noteq> Some c
                  \<and> find_col L ?cols CANDIDATE_NO_COLS \<noteq> Some c
                  \<and> find_col L ?cols CANDIDATE_NAME_COLS \<noteq> Some c
                  \<and> (\<forall>v. dict_get m c = Some v \<longrightarrow> \<not> float_eq v (FNum 0)))
          \<or> filterable_cols L ?cols m = [] \<and> opts = ?cols
            \<and> WarnNoFilterable \<in> set (fst (run L E)))"
  proof -
    from b consider
      (offered) "filterable_cols L ?cols m \<noteq> []" "opts = filterable_cols L ?cols m"
        "WarnNoFilterable \<notin> set (fst (run L E))"
      | (fallback) "filterable_cols L ?cols m = []" "opts = ?cols"
        "WarnNoFilterable \<in> set (fst (run L E))"
      unfolding Let_def by blast
    then show ?thesis
    proof cases
      case offered
      have "\<forall>c \<in> set opts.
                  c \<in> set ?cols
                  \<and> find_col L ?cols CANDIDATE_CLASS_COLS \<noteq> Some c
                  \<and> find_col L ?cols CANDIDATE_NO_COLS \<noteq> Some c
                  \<and> find_col L ?cols CANDIDATE_NAME_COLS \<noteq> Some c
                  \<and> (\<forall>v. dict_get m c = Some v \<longrightarrow> \<not> float_eq v (FNum 0))"
        unfolding offered(2) by (intro ballI) (rule filterable_cols_sound)
      with offered show ?thesis by simp
    next
      case fallback
      then show ?thesis by simp
    qed
  qed
  with a show "\<exists>f df_raw m.
       selectbox (excel_files_sorted L (listdir E)) (file_pick E) = Some f
     \<and> read_excel E (DATA_DIR @ ascii ''/'' @ f) = Inr df_raw
     \<and> read_excel_row_values_for_headers L (load_workbook E) (DATA_DIR @ ascii ''/'' @ f)
          SHEET_NAME USECOLS_RANGE TARGET_SUM_ROW
          (map (\<lambda>c. py_strip L (str_of L c)) (df_columns df_raw)) = Inr m
     \<and> (let cols = map (\<lambda>c. py_strip L (str_of L c)) (df_columns df_raw) in
          opts \<noteq> [] \<and> opts = filterable_cols L cols m
            \<and> WarnNoFilterable \<notin> set (fst (run L E))
            \<and> (\<forall>c \<in> set opts.
                  c \<in> set cols
                  \<and> find_col L cols CANDIDATE_CLASS_COLS \<noteq> Some c
                  \<and> find_col L cols CANDIDATE_NO_COLS \<noteq> Some c
                  \<and> find_col L cols CANDIDATE_NAME_COLS \<noteq> Some c
                  \<and> (\<forall>v. dict_get m c = Some v \<longrightarrow> \<not> float_eq v (FNum 0)))
          \<or> filterable_cols L cols m = [] \<and> opts = cols
            \<and> WarnNoFilterable \<in> set (fst (run L E)))"
    unfolding Let_def by (intro exI [of _ f] exI [of _ df_raw] exI [of _ m] conjI)
qed

section \<open>The demo roster\<close>

lemma demo_files:
  "excel_files_sorted ascii_lib (listdir (demo_env [ascii ''w1.xlsx''] loaded ws pick)) = [ascii ''w1.xlsx'']"
  by (simp add: demo_env_def excel_files_sorted_def is_excel_name_def endswith_def lib_defs)

lemma demo_file_choice:
  "selectbox (excel_files_sorted ascii_lib (listdir (demo_env [ascii ''w1.xlsx''] loaded ws pick)))
     (file_pick (demo_env [ascii ''w1.xlsx''] loaded ws pick)) = Some (ascii ''w1.xlsx'')"
  unfolding demo_files by (simp add: selectbox_def demo_env_def)

lemma demo_row_values:
  "read_excel_row_values_for_headers ascii_lib (load_workbook (demo_env names loaded ws pick)) p
     SHEET_NAME USECOLS_RANGE TARGET_SUM_ROW headers =
   Inr (foldl (\<lambda>d i. dict_set d (headers ! i) (to_float_or_zero ascii_lib (ws 174 (1 + i))))
          [] [0 ..< min (length headers) 33])"
proof -
  let ?wb = "[(ascii ''Sheet1'', ws)]"
  have p1: "load_workbook (demo_env names loaded ws pick) p = Inr ?wb" by (simp add: demo_env_def)
  have p2: "select_sheet ?wb SHEET_NAME = Inr ws"
    by (simp add: select_sheet_def sheet_by_name_def SHEET_NAME_def)
  have p3: "py_split 58 USECOLS_RANGE = [ascii ''A'', ascii ''AG'']"
    by (simp add: USECOLS_RANGE_def ascii_def)
  have p4: "column_index_from_string ascii_lib (ascii ''A'') = Inr 1"
    by (simp add: column_index_from_string_def lib_defs)
  have p5: "column_index_from_string ascii_lib (ascii ''AG'') = Inr 33"
    by (simp add: column_index_from_string_def lib_defs)
  have p6: "1 \<le> TARGET_SUM_ROW" by (simp add: TARGET_SUM_ROW_def)
  show ?thesis
    using row_values_for_headers_eval
      [of "load_workbook (demo_env names loaded ws pick)" p ?wb SHEET_NAME ws USECOLS_RANGE
          "ascii ''A''" "ascii ''AG''" ascii_lib 1 33 TARGET_SUM_ROW headers,
       OF p1 p2 p3 p4 p5 p6]
    by (simp add: TARGET_SUM_ROW_def)
qed

lemma demo_cols:
  "map (\<lambda>c. py_strip ascii_lib (str_of ascii_lib c)) (df_columns demo_frame)
     = [ascii ''Class'', ascii ''No'', ascii ''Name'', ascii ''Math'', ascii ''Art'']"
  by (simp add: demo_frame_def lib_defs util_defs)

lemma demo_sum_map:
  "read_excel_row_values_for_headers ascii_lib
     (load_workbook (demo_env names loaded (row174 demo_sums) pick)) p
     SHEET_NAME USECOLS_RANGE TARGET_SUM_ROW
     [ascii ''Class'', ascii ''No'', ascii ''Name'', ascii ''Math'', ascii ''Art'']
   = Inr [(ascii ''Class'', FNum 0), (ascii ''No'', FNum 0), (ascii ''Name'', FNum 0),
          (ascii ''Math'', FNum 2), (ascii ''Art'', FNum 0)]"
proof -
  have u: "[0 ..< min (length [ascii ''Class'', ascii ''No'', ascii ''Name'', ascii ''Math'', ascii ''Art'']) 33]
      = [0, 1, 2, 3, 4]"
    by (simp add: upt_conv_Cons)
  show ?thesis
    unfolding demo_row_values u
    by (simp add: row174_def demo_sums_def to_float_or_zero_def lib_defs util_defs dec_digits.simps)
qed

lemma demo_filterable:
  "filterable_cols ascii_lib
     [ascii ''Class'', ascii ''No'', ascii ''Name'', ascii ''Math'', ascii ''Art'']
     [(ascii ''Class'', FNum 0), (ascii ''No'', FNum 0), (ascii ''Name'', FNum 0),
      (ascii ''Math'', FNum 2), (ascii ''Art'', FNum 0)]
   = [ascii ''Math'']"
  by (simp add: filterable_cols_def blocked_cols_def zero_sum_cols_def somes_def
        CANDIDATE_CLASS_COLS_def CANDIDATE_NO_COLS_def CANDIDATE_NAME_COLS_def lib_defs util_defs)


lemma demo_read: "read_excel (demo_env names loaded ws pick) p = loaded"
  by (simp add: demo_env_def)

lemma demo_run_columns:
  "run ascii_lib (demo_env [ascii ''w1.xlsx''] (Inr demo_frame) (row174 demo_sums) pick) =
     after [Makedirs DATA_DIR, Listdir DATA_DIR, SidebarHeader, SelectFile [ascii ''w1.xlsx''],
            ReadExcel (DATA_DIR @ ascii ''/'' @ ascii ''w1.xlsx''),
            LoadWorkbook (DATA_DIR @ ascii ''/'' @ ascii ''w1.xlsx'')]
       (stage_filter ascii_lib (demo_env [ascii ''w1.xlsx''] (Inr demo_frame) (row174 demo_sums) pick)
          (ascii ''w1.xlsx'')
          \<lparr>df_columns = [ascii ''Class'', ascii ''No'', ascii ''Name'', ascii ''Math'', ascii ''Art''],
           df_rows = df_rows demo_frame\<rparr>
          [ascii ''Math''])"
proof -
  let ?E = "demo_env [ascii ''w1.xlsx''] (Inr demo_frame) (row174 demo_sums) pick"
  let ?p = "DATA_DIR @ ascii ''/'' @ ascii ''w1.xlsx''"
  have r: "run ascii_lib ?E = after [Makedirs DATA_DIR, Listdir DATA_DIR, SidebarHeader,
               SelectFile (excel_files_sorted ascii_lib (listdir ?E)), ReadExcel ?p]
              (stage_columns ascii_lib ?E (ascii ''w1.xlsx'') ?p demo_frame)"
    by (rule run_loaded [OF demo_file_choice demo_read])
  have m: "read_excel_row_values_for_headers ascii_lib (load_workbook ?E) ?p SHEET_NAME
       USECOLS_RANGE TARGET_SUM_ROW
       (map (\<lambda>c. py_strip ascii_lib (str_of ascii_lib c)) (df_columns demo_frame))
     = Inr [(ascii ''Class'', FNum 0), (ascii ''No'', FNum 0), (ascii ''Name'', FNum 0),
            (ascii ''Math'', FNum 2), (ascii ''Art'', FNum 0)]"
    unfolding demo_cols by (rule demo_sum_map)
  have f: "filterable_cols ascii_lib
       (map (\<lambda>c. py_strip ascii_lib (str_of ascii_lib c)) (df_columns demo_frame))
       [(ascii ''Class'', FNum 0), (ascii ''No'', FNum 0), (ascii ''Name'', FNum 0),
        (ascii ''Math'', FNum 2), (ascii ''Art'', FNum 0)] \<noteq> []"
    unfolding demo_cols demo_filterable by simp
  show ?thesis
    unfolding r stage_columns_offered [OF m f] demo_cols demo_filterable demo_files
    by (simp add: after_def)
qed

lemma subject_choices_exclude_blocked_and_zero_example:
  "SelectColumn [ascii ''Math'']
     \<in> set (fst (run ascii_lib (demo_env [ascii ''w1.xlsx''] (Inr demo_frame) (row174 demo_sums) 0)))
   \<and> WarnNoFilterable
     \<notin> set (fst (run ascii_lib (demo_env [ascii ''w1.xlsx''] (Inr demo_frame) (row174 demo_sums) 0)))"
proof -
  let ?E = "demo_env [ascii ''w1.xlsx''] (Inr demo_frame) (row174 demo_sums) 0"
  let ?cols = "[ascii ''Class'', ascii ''No'', ascii ''Name'', ascii ''Math'', ascii ''Art'']"
  have sel: "SelectColumn [ascii ''Math''] \<in> set (fst (run ascii_lib ?E))"
    unfolding demo_run_columns by simp
  from subject_choices_exclude_blocked_and_zero [of "[ascii ''Math'']" ascii_lib ?E] sel
  obtain df_raw m where
    rd: "read_excel ?E (DATA_DIR @ ascii ''/'' @ ascii ''w1.xlsx'') = Inr df_raw"
    and alt: "(let cols = map (\<lambda>c. py_strip ascii_lib (str_of ascii_lib c)) (df_columns df_raw) in
          [ascii ''Math''] \<noteq> [] \<and> [ascii ''Math''] = filterable_cols ascii_lib cols m
            \<and> WarnNoFilterable \<notin> set (fst (run ascii_lib ?E))
            \<and> (\<forall>c \<in> set [ascii ''Math''].
                  c \<in> set cols
                  \<and> find_col ascii_lib cols CANDIDATE_CLASS_COLS \<noteq> Some c
                  \<and> find_col ascii_lib cols CANDIDATE_NO_COLS \<noteq> Some c
                  \<and> find_col ascii_lib cols CANDIDATE_NAME_COLS \<noteq> Some c
                  \<and> (\<forall>v. dict_get m c = Some v \<longrightarrow> \<not> float_eq v (FNum 0)))
          \<or> filterable_cols ascii_lib cols m = [] \<and> [ascii ''Math''] = cols
            \<and> WarnNoFilterable \<in> set (fst (run ascii_lib ?E)))"
    using demo_file_choice [of "Inr demo_frame" "row174 demo_sums" 0] by auto
  from rd have "df_raw = demo_frame" by (simp add: demo_read)
  with alt have "WarnNoFilterable \<notin> set (fst (run ascii_lib ?E))"
    unfolding Let_def by (auto simp: demo_cols ascii_def)
  with sel show ?thesis by blast
qed

section \<open>The filter and the export\<close>

subsection \<open>The filter\<close>








subsection \<open>The stages after the filter\<close>

lemma stage_filter_ok:
  "selectbox opts (col_pick E) = Some c \<Longrightarrow> apply_mask L df c = Inr df_one \<Longrightarrow>
   stage_filter L E f df opts =
     after [SelectColumn opts, Info (info_text L (Some c)), Title (page_title L f (Some c))]
       (stage_display L f c df_one)"
  by (simp add: stage_filter_def Let_def)

lemma stage_display_fallback:
  "display_cols L (df_columns d) = [] \<Longrightarrow>
   stage_display L f c d =
     after [WarnNoDisplay,
            ShowFrame \<lparr>df_columns = df_columns d,
                       df_rows = map (map XVal) (take 20 (df_rows d))\<rparr> 320 False]
       (stage_export L f c d)"
  by (simp add: stage_display_def Let_def head_rows_def)

lemma select_columns_rows:
  "df_rows (select_columns d labels) = map (\<lambda>r. concat (map (col_cells (df_columns d) r) labels)) (df_rows d)"
  by (simp add: select_columns_def)

lemma select_columns_labels:
  "set labels \<subseteq> set (df_columns d) \<Longrightarrow> set (df_columns (select_columns d labels)) = set labels"
  by (auto simp: select_columns_def)

lemma display_cols_subset: "set (display_cols L cols) \<subseteq> set cols"
  by (auto simp: display_cols_def Let_def)

lemma stage_display_normal:
  assumes "display_cols L (df_columns d) \<noteq> []" "seq_label \<notin> set (display_cols L (df_columns d))"
  shows "stage_display L f c d =
     after [ShowFrame
              \<lparr>df_columns = seq_label # df_columns (select_columns d (display_cols L (df_columns d))),
               df_rows = map (\<lambda>p. XInt (int (fst p)) # map XVal (snd p))
                           (zip [1 ..< length (df_rows d) + 1]
                              (df_rows (select_columns d (display_cols L (df_columns d)))))\<rparr>
              (min 900 (100 + 37 * max 5 (length (df_rows d)))) True]
       (stage_export L f c (select_columns d (display_cols L (df_columns d))))"
proof -
  have "seq_label \<notin> set (df_columns (select_columns d (display_cols L (df_columns d))))"
    using assms(2) select_columns_labels [of "display_cols L (df_columns d)" d]
      display_cols_subset [of L "df_columns d"] by simp
  moreover have "length (df_rows (select_columns d (display_cols L (df_columns d)))) = length (df_rows d)"
    by (simp add: select_columns_rows)
  ultimately show ?thesis
    using assms(1) by (simp add: stage_display_def Let_def del: upt_Suc)
qed

subsection \<open>When the export succeeds\<close>

lemma write_row_ok:
  "3 \<le> length row \<Longrightarrow> \<exists>ws'. write_row fnt ws r i row = Inr ws'"
  by (cases row rule: list.exhaust; simp add: write_row_def Let_def split: list.split)
     (auto split: list.splits)

lemma write_row_fail:
  "length row < 3 \<Longrightarrow> write_row fnt ws r i row = Inl IndexError"
  by (auto simp: write_row_def Let_def split: list.splits)

lemma write_rows_ok:
  "\<forall>row \<in> set rows. 3 \<le> length row \<Longrightarrow> \<exists>ws'. write_rows fnt sr ws i rows = Inr ws'"
proof (induction rows arbitrary: ws i)
  case Nil
  then show ?case by simp
next
  case (Cons row rows)
  then obtain ws1 where "write_row fnt ws (sr + i - 1) i row = Inr ws1"
    using write_row_ok [of row fnt ws "sr + i - 1" i] by auto
  with Cons show ?case by simp
qed

lemma write_rows_fail:
  "\<exists>row \<in> set rows. length row < 3 \<Longrightarrow> write_rows fnt sr ws i rows = Inl IndexError"
proof (induction rows arbitrary: ws i)
  case Nil
  then show ?case by simp
next
  case (Cons row rows)
  show ?case
  proof (cases "length row < 3")
    case True
    then show ?thesis by (simp add: write_row_fail)
  next
    case False
    then obtain ws1 where "write_row fnt ws (sr + i - 1) i row = Inr ws1"
      using write_row_ok [of row fnt ws "sr + i - 1" i] by auto
    moreover from False Cons.prems have "\<exists>row \<in> set rows. length row < 3" by auto
    ultimately show ?thesis using Cons.IH by simp
  qed
qed

lemma case_sum_Inr_ex:
  "\<exists>w'. w = Inr w' \<Longrightarrow> \<exists>ws. (case w of Inl e \<Rightarrow> Inl e | Inr w' \<Rightarrow> Inr (g w')) = Inr ws"
  by auto

lemma build_formatted_excel_ok:
  assumes "\<forall>row \<in> set (df_rows v). 3 \<le> length row"
  shows "\<exists>ws. build_formatted_excel L v f c = Inr ws"
  unfolding build_formatted_excel_def Let_def
  by (rule case_sum_Inr_ex) (rule write_rows_ok [OF assms])

lemma build_formatted_excel_fail:
  "\<exists>row \<in> set (df_rows v). length row < 3 \<Longrightarrow> build_formatted_excel L v f c = Inl IndexError"
  by (simp add: build_formatted_excel_def Let_def write_rows_fail)

lemma stage_export_ok:
  "\<forall>row \<in> set (df_rows v). 3 \<le> length row \<Longrightarrow>
   \<exists>ws. build_formatted_excel L v f c = Inr ws \<and>
     stage_export L f c v = ([Download (XlsxBytes ws) (download_name L f c) xlsx_mime, Success], Finished)"
  using build_formatted_excel_ok [of v L f c] by (auto simp: stage_export_def)

lemma stage_export_fail:
  "\<exists>row \<in> set (df_rows v). length row < 3 \<Longrightarrow> stage_export L f c v = ([], Crashed IndexError)"
  by (simp add: stage_export_def build_formatted_excel_fail)

section \<open>A whole run on the demo roster\<close>

lemma after_append: "after (a @ b) r = after a (after b r)"
  by (simp add: after_def)

lemma stage_export_previews [simp]: "previews (fst (stage_export L f c v)) = []"
  by (simp add: stage_export_def split: sum.split)

lemma run_to_display:
  assumes "selectbox (excel_files_sorted L (listdir E)) (file_pick E) = Some f"
    and "read_excel E (DATA_DIR @ ascii ''/'' @ f) = Inr df_raw"
    and "map (\<lambda>c. py_strip L (str_of L c)) (df_columns df_raw) = cols"
    and "read_excel_row_values_for_headers L (load_workbook E) (DATA_DIR @ ascii ''/'' @ f)
           SHEET_NAME USECOLS_RANGE TARGET_SUM_ROW cols = Inr m"
    and "filterable_cols L cols m = opts" and "opts \<noteq> []"
    and "selectbox opts (col_pick E) = Some c"
    and "apply_mask L \<lparr>df_columns = cols, df_rows = df_rows df_raw\<rparr> c = Inr df_one"
  shows "run L E =
     after [Makedirs DATA_DIR, Listdir DATA_DIR, SidebarHeader,
            SelectFile (excel_files_sorted L (listdir E)),
            ReadExcel (DATA_DIR @ ascii ''/'' @ f), LoadWorkbook (DATA_DIR @ ascii ''/'' @ f),
            SelectColumn opts, Info (info_text L (Some c)), Title (page_title L f (Some c))]
       (stage_display L f c df_one)"
proof -
  let ?p = "DATA_DIR @ ascii ''/'' @ f"
  have m: "read_excel_row_values_for_headers L (load_workbook E) ?p SHEET_NAME USECOLS_RANGE
      TARGET_SUM_ROW (map (\<lambda>c. py_strip L (str_of L c)) (df_columns df_raw)) = Inr m"
    using assms(3,4) by simp
  have ne: "filterable_cols L (map (\<lambda>c. py_strip L (str_of L c)) (df_columns df_raw)) m \<noteq> []"
    using assms(3,5,6) by simp
  show ?thesis
    unfolding run_loaded [OF assms(1,2)] stage_columns_offered [OF m ne]
    unfolding assms(3) assms(5) stage_filter_ok [OF assms(7,8)]
    by (simp add: after_def)
qed

text \<open>The demo roster, Math chosen: two students applied.\<close>

lemma demo_display_cols:
  "display_cols ascii_lib [ascii ''Class'', ascii ''No'', ascii ''Name'', ascii ''Math'', ascii ''Art'']
     = [ascii ''Class'', ascii ''No'', ascii ''Name'']"
  by (simp add: display_cols_def or_default_def
        CANDIDATE_CLASS_COLS_def CANDIDATE_NO_COLS_def CANDIDATE_NAME_COLS_def lib_defs util_defs)

lemma demo_mask:
  "apply_mask ascii_lib
     \<lparr>df_columns = [ascii ''Class'', ascii ''No'', ascii ''Name'', ascii ''Math'', ascii ''Art''],
      df_rows = df_rows demo_frame\<rparr> (ascii ''Math'')
   = Inr \<lparr>df_columns = [ascii ''Class'', ascii ''No'', ascii ''Name'', ascii ''Math'', ascii ''Art''],
          df_rows = [[PyObj 1, PyObj 1, PyStr (ascii ''Kim''), PyObj 1, PyNone],
                     [PyObj 2, PyObj 1, PyStr (ascii ''Park''), PyStr (ascii ''1''), PyNone]]\<rparr>"
  by (simp add: apply_mask_def col_cells_def demo_frame_def lib_defs util_defs dec_digits.simps)

lemma demo_view:
  "select_columns
     \<lparr>df_columns = [ascii ''Class'', ascii ''No'', ascii ''Name'', ascii ''Math'', ascii ''Art''],
      df_rows = [[PyObj 1, PyObj 1, PyStr (ascii ''Kim''), PyObj 1, PyNone],
                 [PyObj 2, PyObj 1, PyStr (ascii ''Park''), PyStr (ascii ''1''), PyNone]]\<rparr>
     [ascii ''Class'', ascii ''No'', ascii ''Name'']
   = \<lparr>df_columns = [ascii ''Class'', ascii ''No'', ascii ''Name''],
      df_rows = [[PyObj 1, PyObj 1, PyStr (ascii ''Kim'')],
                 [PyObj 2, PyObj 1, PyStr (ascii ''Park'')]]\<rparr>"
  by (simp add: select_columns_def col_cells_def ascii_def)

lemma demo_run:
  "\<exists>ws. build_formatted_excel ascii_lib
          \<lparr>df_columns = [ascii ''Class'', ascii ''No'', ascii ''Name''],
           df_rows = [[PyObj 1, PyObj 1, PyStr (ascii ''Kim'')],
                      [PyObj 2, PyObj 1, PyStr (ascii ''Park'')]]\<rparr>
          (ascii ''w1.xlsx'') (ascii ''Math'') = Inr ws
     \<and> run ascii_lib (demo_env [ascii ''w1.xlsx''] (Inr demo_frame) (row174 demo_sums) 0) =
       ([Makedirs DATA_DIR, Listdir DATA_DIR, SidebarHeader, SelectFile [ascii ''w1.xlsx''],
         ReadExcel (DATA_DIR @ ascii ''/'' @ ascii ''w1.xlsx''),
         LoadWorkbook (DATA_DIR @ ascii ''/'' @ ascii ''w1.xlsx''),
         SelectColumn [ascii ''Math''],
         Info (info_text ascii_lib (Some (ascii ''Math''))),
         Title (page_title ascii_lib (ascii ''w1.xlsx'') (Some (ascii ''Math''))),
         ShowFrame \<lparr>df_columns = [seq_label, ascii ''Class'', ascii ''No'', ascii ''Name''],
                    df_rows = [[XInt 1, XVal (PyObj 1), XVal (PyObj 1), XVal (PyStr (ascii ''Kim''))],
                               [XInt 2, XVal (PyObj 2), XVal (PyObj 1), XVal (PyStr (ascii ''Park''))]]\<rparr>
           285 True,
         Download (XlsxBytes ws) (download_name ascii_lib (ascii ''w1.xlsx'') (ascii ''Math'')) xlsx_mime,
         Success], Finished)"
proof -
  let ?E = "demo_env [ascii ''w1.xlsx''] (Inr demo_frame) (row174 demo_sums) 0"
  let ?cols = "[ascii ''Class'', ascii ''No'', ascii ''Name'', ascii ''Math'', ascii ''Art'']"
  let ?one = "\<lparr>df_columns = ?cols,
          df_rows = [[PyObj 1, PyObj 1, PyStr (ascii ''Kim''), PyObj 1, PyNone],
                     [PyObj 2, PyObj 1, PyStr (ascii ''Park''), PyStr (ascii ''1''), PyNone]]\<rparr>"
  let ?view = "\<lparr>df_columns = [ascii ''Class'', ascii ''No'', ascii ''Name''],
      df_rows = [[PyObj 1, PyObj 1, PyStr (ascii ''Kim'')],
                 [PyObj 2, PyObj 1, PyStr (ascii ''Park'')]]\<rparr>"
  have pick: "selectbox [ascii ''Math''] (col_pick ?E) = Some (ascii ''Math'')"
    by (simp add: selectbox_def demo_env_def)
  have r: "run ascii_lib ?E =
     after [Makedirs DATA_DIR, Listdir DATA_DIR, SidebarHeader,
            SelectFile (excel_files_sorted ascii_lib (listdir ?E)),
            ReadExcel (DATA_DIR @ ascii ''/'' @ ascii ''w1.xlsx''),
            LoadWorkbook (DATA_DIR @ ascii ''/'' @ ascii ''w1.xlsx''),
            SelectColumn [ascii ''Math''], Info (info_text ascii_lib (Some (ascii ''Math''))),
            Title (page_title ascii_lib (ascii ''w1.xlsx'') (Some (ascii ''Math'')))]
       (stage_display ascii_lib (ascii ''w1.xlsx'') (ascii ''Math'') ?one)"
    by (rule run_to_display [OF demo_file_choice demo_read demo_cols demo_sum_map demo_filterable _ pick demo_mask])
       simp
  have dc: "display_cols ascii_lib (df_columns ?one) = [ascii ''Class'', ascii ''No'', ascii ''Name'']"
    by (simp add: demo_display_cols)
  have d1: "display_cols ascii_lib (df_columns ?one) \<noteq> []"
    unfolding dc by simp
  have d2: "seq_label \<notin> set (display_cols ascii_lib (df_columns ?one))"
    unfolding dc by (simp add: seq_label_def ascii_def)
  have v: "select_columns ?one (display_cols ascii_lib (df_columns ?one)) = ?view"
    unfolding dc by (rule demo_view)
  have "\<forall>row \<in> set (df_rows ?view). 3 \<le> length row" by simp
  from stage_export_ok [OF this, of ascii_lib "ascii ''w1.xlsx''" "ascii ''Math''"]
  obtain ws where b: "build_formatted_excel ascii_lib ?view (ascii ''w1.xlsx'') (ascii ''Math'') = Inr ws"
    and e: "stage_export ascii_lib (ascii ''w1.xlsx'') (ascii ''Math'') ?view =
        ([Download (XlsxBytes ws) (download_name ascii_lib (ascii ''w1.xlsx'') (ascii ''Math'')) xlsx_mime,
          Success], Finished)"
    by blast
  have "run ascii_lib ?E = ([Makedirs DATA_DIR, Listdir DATA_DIR, SidebarHeader, SelectFile [ascii ''w1.xlsx''],
         ReadExcel (DATA_DIR @ ascii ''/'' @ ascii ''w1.xlsx''),
         LoadWorkbook (DATA_DIR @ ascii ''/'' @ ascii ''w1.xlsx''),
         SelectColumn [ascii ''Math''],
         Info (info_text ascii_lib (Some (ascii ''Math''))),
         Title (page_title ascii_lib (ascii ''w1.xlsx'') (Some (ascii ''Math''))),
         ShowFrame \<lparr>df_columns = [seq_label, ascii ''Class'', ascii ''No'', ascii ''Name''],
                    df_rows = [[XInt 1, XVal (PyObj 1), XVal (PyObj 1), XVal (PyStr (ascii ''Kim''))],
                               [XInt 2, XVal (PyObj 2), XVal (PyObj 1), XVal (PyStr (ascii ''Park''))]]\<rparr>
           285 True,
         Download (XlsxBytes ws) (download_name ascii_lib (ascii ''w1.xlsx'') (ascii ''Math'')) xlsx_mime,
         Success], Finished)"
    unfolding r stage_display_normal [OF d1 d2] v e
    by (simp add: after_def demo_files upt_conv_Cons)
  with b show ?thesis by blast
qed

section \<open>Downloads\<close>

lemma run_download_shape:
  "(\<forall>d \<in> set (downloads (fst (run L E))). \<not> is_pdf (fst d) \<and> snd (snd d) = xlsx_mime)
   \<and> length (downloads (fst (run L E))) \<le> 1
   \<and> (snd (run L E) = Finished \<longleftrightarrow> length (downloads (fst (run L E))) = 1)
   \<and> (snd (run L E) = Finished \<longrightarrow>
        (\<exists>f c v ws. build_formatted_excel L v f c = Inr ws
           \<and> downloads (fst (run L E)) = [(XlsxBytes ws, download_name L f c, xlsx_mime)]))"
proof -
  from export_shape_run [of L E] obtain f where "export_shape L f (run L E)" ..
  then consider
    (none) "downloads (fst (run L E)) = []" "snd (run L E) \<noteq> Finished"
    | (one) c v ws where "build_formatted_excel L v f c = Inr ws" "snd (run L E) = Finished"
        "downloads (fst (run L E)) = [(XlsxBytes ws, download_name L f c, xlsx_mime)]"
    unfolding export_shape_def by blast
  then show ?thesis
  proof cases
    case none
    then show ?thesis by simp
  next
    case one
    then show ?thesis by auto
  qed
qed

subsection \<open>What a finished run went through\<close>

lemma stage_export_finished:
  "snd (stage_export L f c v) = Finished \<Longrightarrow>
   \<exists>ws. build_formatted_excel L v f c = Inr ws
      \<and> downloads (fst (stage_export L f c v)) = [(XlsxBytes ws, download_name L f c, xlsx_mime)]"
  by (cases "build_formatted_excel L v f c") (auto simp: stage_export_def)

lemma stage_display_clash:
  assumes "display_cols L (df_columns d) \<noteq> []" "seq_label \<in> set (display_cols L (df_columns d))"
  shows "stage_display L f c d = ([], Crashed ValueError)"
proof -
  have "seq_label \<in> set (df_columns (select_columns d (display_cols L (df_columns d))))"
    using assms(2) select_columns_labels [of "display_cols L (df_columns d)" d]
      display_cols_subset [of L "df_columns d"] by simp
  then show ?thesis
    using assms(1) by (simp add: stage_display_def Let_def del: upt_Suc)
qed

lemma stage_display_finished:
  assumes "snd (stage_display L f c d) = Finished"
  shows "\<exists>ws. build_formatted_excel L (export_view L d) f c = Inr ws
      \<and> downloads (fst (stage_display L f c d)) = [(XlsxBytes ws, download_name L f c, xlsx_mime)]"
proof (cases "display_cols L (df_columns d) = []")
  case True
  have v: "export_view L d = d" using True by (simp add: export_view_def)
  from assms have "snd (stage_export L f c d) = Finished"
    unfolding stage_display_fallback [OF True] by simp
  from stage_export_finished [OF this] show ?thesis
    unfolding stage_display_fallback [OF True] v by simp
next
  case False
  have v: "export_view L d = select_columns d (display_cols L (df_columns d))"
    using False by (simp add: export_view_def)
  have n: "seq_label \<notin> set (display_cols L (df_columns d))"
  proof
    assume "seq_label \<in> set (display_cols L (df_columns d))"
    from stage_display_clash [OF False this, of f c] assms show False by simp
  qed
  from assms have "snd (stage_export L f c (select_columns d (display_cols L (df_columns d)))) = Finished"
    unfolding stage_display_normal [OF False n] by simp
  from stage_export_finished [OF this] show ?thesis
    unfolding stage_display_normal [OF False n] v by simp
qed

lemma stage_filter_finished:
  assumes "snd (stage_filter L E f df opts) = Finished"
  shows "\<exists>c df_one ws. selectbox opts (col_pick E) = Some c
      \<and> apply_mask L df c = Inr df_one
      \<and> build_formatted_excel L (export_view L df_one) f c = Inr ws
      \<and> downloads (fst (stage_filter L E f df opts)) = [(XlsxBytes ws, download_name L f c, xlsx_mime)]"
proof (cases "selectbox opts (col_pick E)")
  case None
  with assms show ?thesis by (simp add: stage_filter_def Let_def)
next
  case (Some c)
  show ?thesis
  proof (cases "apply_mask L df c")
    case (Inl e)
    with Some assms show ?thesis by (simp add: stage_filter_def Let_def)
  next
    case (Inr df_one)
    from assms have "snd (stage_display L f c df_one) = Finished"
      unfolding stage_filter_ok [OF Some Inr] by simp
    from stage_display_finished [OF this] obtain ws where
      "build_formatted_excel L (export_view L df_one) f c = Inr ws"
      "downloads (fst (stage_display L f c df_one)) = [(XlsxBytes ws, download_name L f c, xlsx_mime)]"
      by blast
    with Some Inr show ?thesis
      unfolding stage_filter_ok [OF Some Inr] by simp
  qed
qed

lemma stage_columns_ok:
  assumes "read_excel_row_values_for_headers L (load_workbook E) p SHEET_NAME USECOLS_RANGE
     TARGET_SUM_ROW (df_columns (strip_labels L df_raw)) = Inr m"
  shows "stage_columns L E f p df_raw =
     after (LoadWorkbook p
            # (if length (filterable_cols L (df_columns (strip_labels L df_raw)) m) = 0
               then [WarnNoFilterable] else []))
       (stage_filter L E f (strip_labels L df_raw)
          (offered_cols L (df_columns (strip_labels L df_raw)) m))"
  using assms by (simp add: stage_columns_def after_def Let_def strip_labels_def offered_cols_def)

lemma stage_columns_finished:
  assumes "snd (stage_columns L E f p df_raw) = Finished"
  shows "\<exists>m c df_one ws.
        read_excel_row_values_for_headers L (load_workbook E) p SHEET_NAME USECOLS_RANGE
          TARGET_SUM_ROW (df_columns (strip_labels L df_raw)) = Inr m
      \<and> selectbox (offered_cols L (df_columns (strip_labels L df_raw)) m) (col_pick E) = Some c
      \<and> apply_mask L (strip_labels L df_raw) c = Inr df_one
      \<and> build_formatted_excel L (export_view L df_one) f c = Inr ws
      \<and> downloads (fst (stage_columns L E f p df_raw)) = [(XlsxBytes ws, download_name L f c, xlsx_mime)]"
proof (cases "read_excel_row_values_for_headers L (load_workbook E) p SHEET_NAME USECOLS_RANGE
          TARGET_SUM_ROW (df_columns (strip_labels L df_raw))")
  case (Inl e)
  then have "stage_columns L E f p df_raw = ([LoadWorkbook p], Crashed e)"
    by (intro stage_columns_failed) (simp add: strip_labels_def)
  with assms show ?thesis by simp
next
  case (Inr m)
  from assms have "snd (stage_filter L E f (strip_labels L df_raw)
          (offered_cols L (df_columns (strip_labels L df_raw)) m)) = Finished"
    unfolding stage_columns_ok [OF Inr] by simp
  from stage_filter_finished [OF this] obtain c df_one ws where
    "selectbox (offered_cols L (df_columns (strip_labels L df_raw)) m) (col_pick E) = Some c"
    "apply_mask L (strip_labels L df_raw) c = Inr df_one"
    "build_formatted_excel L (export_view L df_one) f c = Inr ws"
    "downloads (fst (stage_filter L E f (strip_labels L df_raw)
          (offered_cols L (df_columns (strip_labels L df_raw)) m)))
       = [(XlsxBytes ws, download_name L f c, xlsx_mime)]"
    by blast
  with Inr show ?thesis
    unfolding stage_columns_ok [OF Inr] by simp
qed

lemma run_finished:
  assumes "snd (run L E) = Finished"
  shows "\<exists>f df_raw m c df_one ws.
        selectbox (excel_files_sorted L (listdir E)) (file_pick E) = Some f
      \<and> read_excel E (DATA_DIR @ ascii ''/'' @ f) = Inr df_raw
      \<and> read_excel_row_values_for_headers L (load_workbook E) (DATA_DIR @ ascii ''/'' @ f)
          SHEET_NAME USECOLS_RANGE TARGET_SUM_ROW (df_columns (strip_labels L df_raw)) = Inr m
      \<and> selectbox (offered_cols L (df_columns (strip_labels L df_raw)) m) (col_pick E) = Some c
      \<and> apply_mask L (strip_labels L df_raw) c = Inr df_one
      \<and> build_formatted_excel L (export_view L df_one) f c = Inr ws
      \<and> downloads (fst (run L E)) = [(XlsxBytes ws, download_name L f c, xlsx_mime)]"
proof (cases "selectbox (excel_files_sorted L (listdir E)) (file_pick E)")
  case None
  with assms show ?thesis by (simp add: run_def Let_def split: if_splits)
next
  case (Some f)
  show ?thesis
  proof (cases "read_excel E (DATA_DIR @ ascii ''/'' @ f)")
    case (Inl msg)
    from run_load_failure [OF Some Inl] assms show ?thesis by simp
  next
    case (Inr df_raw)
    from assms have "snd (stage_columns L E f (DATA_DIR @ ascii ''/'' @ f) df_raw) = Finished"
      unfolding run_loaded [OF Some Inr] by simp
    from stage_columns_finished [OF this] obtain m c df_one ws where
      "read_excel_row_values_for_headers L (load_workbook E) (DATA_DIR @ ascii ''/'' @ f)
          SHEET_NAME USECOLS_RANGE TARGET_SUM_ROW (df_columns (strip_labels L df_raw)) = Inr m"
      "selectbox (offered_cols L (df_columns (strip_labels L df_raw)) m) (col_pick E) = Some c"
      "apply_mask L (strip_labels L df_raw) c = Inr df_one"
      "build_formatted_excel L (export_view L df_one) f c = Inr ws"
      "downloads (fst (stage_columns L E f (DATA_DIR @ ascii ''/'' @ f) df_raw))
         = [(XlsxBytes ws, download_name L f c, xlsx_mime)]"
      by blast
    with Some Inr show ?thesis
      unfolding run_loaded [OF Some Inr] by simp
  qed
qed

lemma run_download_view:
  "(\<forall>d \<in> set (downloads (fst (run L E))). \<not> is_pdf (fst d) \<and> snd (snd d) = xlsx_mime)
   \<and> length (downloads (fst (run L E))) \<le> 1
   \<and> (snd (run L E) = Finished \<longleftrightarrow> length (downloads (fst (run L E))) = 1)
   \<and> (snd (run L E) = Finished \<longrightarrow>
        (\<exists>f df_raw m c df_one ws.
            selectbox (excel_files_sorted L (listdir E)) (file_pick E) = Some f
          \<and> read_excel E (DATA_DIR @ ascii ''/'' @ f) = Inr df_raw
          \<and> read_excel_row_values_for_headers L (load_workbook E) (DATA_DIR @ ascii ''/'' @ f)
              SHEET_NAME USECOLS_RANGE TARGET_SUM_ROW (df_columns (strip_labels L df_raw)) = Inr m
          \<and> selectbox (offered_cols L (df_columns (strip_labels L df_raw)) m) (col_pick E) = Some c
          \<and> apply_mask L (strip_labels L df_raw) c = Inr df_one
          \<and> build_formatted_excel L (export_view L df_one) f c = Inr ws
          \<and> downloads (fst (run L E)) = [(XlsxBytes ws, download_name L f c, xlsx_mime)]))"
proof (intro conjI)
  show "\<forall>d \<in> set (downloads (fst (run L E))). \<not> is_pdf (fst d) \<and> snd (snd d) = xlsx_mime"
    using run_download_shape [of L E] by blast
  show "length (downloads (fst (run L E))) \<le> 1"
    using run_download_shape [of L E] by blast
  show "snd (run L E) = Finished \<longleftrightarrow> length (downloads (fst (run L E))) = 1"
    using run_download_shape [of L E] by blast
  show "snd (run L E) = Finished \<longrightarrow>
        (\<exists>f df_raw m c df_one ws.
            selectbox (excel_files_sorted L (listdir E)) (file_pick E) = Some f
          \<and> read_excel E (DATA_DIR @ ascii ''/'' @ f) = Inr df_raw
          \<and> read_excel_row_values_for_headers L (load_workbook E) (DATA_DIR @ ascii ''/'' @ f)
              SHEET_NAME USECOLS_RANGE TARGET_SUM_ROW (df_columns (strip_labels L df_raw)) = Inr m
          \<and> selectbox (offered_cols L (df_columns (strip_labels L df_raw)) m) (col_pick E) = Some c
          \<and> apply_mask L (strip_labels L df_raw) c = Inr df_one
          \<and> build_formatted_excel L (export_view L df_one) f c = Inr ws
          \<and> downloads (fst (run L E)) = [(XlsxBytes ws, download_name L f c, xlsx_mime)])"
    using run_finished [of L E] by blast
qed

text \<open>
  Claim C3, as the code has it. A run offers at most one download, and it is never a
  PDF: every download carries the MIME type of an Excel workbook. A run offers its one
  download exactly when it reaches its last line, and the download is then the sheet
  that \<open>build_formatted_excel\<close> built from the filtered student list: from
  \<open>df_view\<close>, the view of the rows that \<open>apply_mask\<close> kept of the loaded frame for
  the chosen column, under the names of the chosen file and the chosen column.
  \<open>build_pdf\<close> is defined but no run calls it.
\<close>

theorem only_excel_download_offered:
  "(\<forall>d \<in> set (downloads (fst (run L E))). \<not> is_pdf (fst d) \<and> snd (snd d) = xlsx_mime)
   \<and> length (downloads (fst (run L E))) \<le> 1
   \<and> (snd (run L E) = Finished \<longleftrightarrow> length (downloads (fst (run L E))) = 1)
   \<and> (snd (run L E) = Finished \<longrightarrow>
        (\<exists>f df_raw m c df_one ws.
            selectbox (excel_files_sorted L (listdir E)) (file_pick E) = Some f
          \<and> read_excel E (DATA_DIR @ ascii ''/'' @ f) = Inr df_raw
          \<and> read_excel_row_values_for_headers L (load_workbook E) (DATA_DIR @ ascii ''/'' @ f)
              SHEET_NAME USECOLS_RANGE TARGET_SUM_ROW (df_columns (strip_labels L df_raw)) = Inr m
          \<and> selectbox (offered_cols L (df_columns (strip_labels L df_raw)) m) (col_pick E) = Some c
          \<and> apply_mask L (strip_labels L df_raw) c = Inr df_one
          \<and> build_formatted_excel L (export_view L df_one) f c = Inr ws
          \<and> downloads (fst (run L E)) = [(XlsxBytes ws, download_name L f c, xlsx_mime)]))"
  by (rule run_download_view)

text \<open>
  On the demo roster with Math chosen, the one download is the sheet built from the
  class, number and name of the two students who applied.
\<close>

theorem only_excel_download_offered_witness:
  "\<exists>ws. build_formatted_excel ascii_lib
          \<lparr>df_columns = [ascii ''Class'', ascii ''No'', ascii ''Name''],
           df_rows = [[PyObj 1, PyObj 1, PyStr (ascii ''Kim'')],
                      [PyObj 2, PyObj 1, PyStr (ascii ''Park'')]]\<rparr>
          (ascii ''w1.xlsx'') (ascii ''Math'') = Inr ws
     \<and> downloads (fst (run ascii_lib (demo_env [ascii ''w1.xlsx''] (Inr demo_frame) (row174 demo_sums) 0)))
        = [(XlsxBytes ws, download_name ascii_lib (ascii ''w1.xlsx'') (ascii ''Math''), xlsx_mime)]"
proof -
  let ?E = "demo_env [ascii ''w1.xlsx''] (Inr demo_frame) (row174 demo_sums) 0"
  let ?cols = "[ascii ''Class'', ascii ''No'', ascii ''Name'', ascii ''Math'', ascii ''Art'']"
  let ?one = "\<lparr>df_columns = ?cols,
          df_rows = [[PyObj 1, PyObj 1, PyStr (ascii ''Kim''), PyObj 1, PyNone],
                     [PyObj 2, PyObj 1, PyStr (ascii ''Park''), PyStr (ascii ''1''), PyNone]]\<rparr>"
  from demo_run have fin: "snd (run ascii_lib ?E) = Finished" by auto
  from only_excel_download_offered [of ascii_lib ?E] fin
  obtain f df_raw m c df_one ws where
    f: "selectbox (excel_files_sorted ascii_lib (listdir ?E)) (file_pick ?E) = Some f"
    and rd: "read_excel ?E (DATA_DIR @ ascii ''/'' @ f) = Inr df_raw"
    and m: "read_excel_row_values_for_headers ascii_lib (load_workbook ?E) (DATA_DIR @ ascii ''/'' @ f)
              SHEET_NAME USECOLS_RANGE TARGET_SUM_ROW (df_columns (strip_labels ascii_lib df_raw)) = Inr m"
    and c: "selectbox (offered_cols ascii_lib (df_columns (strip_labels ascii_lib df_raw)) m) (col_pick ?E) = Some c"
    and one: "apply_mask ascii_lib (strip_labels ascii_lib df_raw) c = Inr df_one"
    and b: "build_formatted_excel ascii_lib (export_view ascii_lib df_one) f c = Inr ws"
    and d: "downloads (fst (run ascii_lib ?E)) = [(XlsxBytes ws, download_name ascii_lib f c, xlsx_mime)]"
    by blast
  from f have f': "f = ascii ''w1.xlsx''" unfolding demo_file_choice by simp
  from rd have raw: "df_raw = demo_frame" by (simp add: demo_read)
  have sl: "strip_labels ascii_lib demo_frame = \<lparr>df_columns = ?cols, df_rows = df_rows demo_frame\<rparr>"
    by (simp add: strip_labels_def demo_cols)
  from m have m': "m = [(ascii ''Class'', FNum 0), (ascii ''No'', FNum 0), (ascii ''Name'', FNum 0),
          (ascii ''Math'', FNum 2), (ascii ''Art'', FNum 0)]"
    unfolding raw sl by (simp add: demo_sum_map)
  have oc: "offered_cols ascii_lib ?cols m = [ascii ''Math'']"
    unfolding m' offered_cols_def demo_filterable by simp
  from c have c': "c = ascii ''Math''"
    unfolding raw sl by (simp add: oc selectbox_def demo_env_def)
  from one have one': "df_one = ?one"
    unfolding raw sl c' demo_mask by simp
  have dc: "display_cols ascii_lib (df_columns ?one) = [ascii ''Class'', ascii ''No'', ascii ''Name'']"
    by (simp add: demo_display_cols)
  have v: "export_view ascii_lib ?one =
      \<lparr>df_columns = [ascii ''Class'', ascii ''No'', ascii ''Name''],
       df_rows = [[PyObj 1, PyObj 1, PyStr (ascii ''Kim'')],
                  [PyObj 2, PyObj 1, PyStr (ascii ''Park'')]]\<rparr>"
    unfolding export_view_def dc demo_view by simp
  from b d show ?thesis unfolding one' v f' c' by blast
qed

text \<open>
  The claim as stated fails on the demo roster: the run reaches its last line and the
  one download it offers is not a PDF.
\<close>

theorem pdf_download_counterexample:
  "snd (run ascii_lib (demo_env [ascii ''w1.xlsx''] (Inr demo_frame) (row174 demo_sums) 0)) = Finished
   \<and> map (\<lambda>d. is_pdf (fst d))
        (downloads (fst (run ascii_lib (demo_env [ascii ''w1.xlsx''] (Inr demo_frame) (row174 demo_sums) 0))))
       = [False]"
  using demo_run by auto

text \<open>The roster without a number column, Math chosen.\<close>

lemma no_number_cols:
  "map (\<lambda>c. py_strip ascii_lib (str_of ascii_lib c)) (df_columns demo_frame_no_number)
     = [ascii ''Class'', ascii ''Name'', ascii ''Math'']"
  by (simp add: demo_frame_no_number_def lib_defs util_defs)

lemma no_number_sum_map:
  "read_excel_row_values_for_headers ascii_lib
     (load_workbook (demo_env names loaded (row174 [PyNone, PyNone, PyObj 1]) pick)) p
     SHEET_NAME USECOLS_RANGE TARGET_SUM_ROW
     [ascii ''Class'', ascii ''Name'', ascii ''Math'']
   = Inr [(ascii ''Class'', FNum 0), (ascii ''Name'', FNum 0), (ascii ''Math'', FNum 1)]"
proof -
  have u: "[0 ..< min (length [ascii ''Class'', ascii ''Name'', ascii ''Math'']) 33] = [0, 1, 2]"
    by (simp add: upt_conv_Cons)
  show ?thesis
    unfolding demo_row_values u
    by (simp add: row174_def to_float_or_zero_def lib_defs util_defs dec_digits.simps)
qed

lemma no_number_filterable:
  "filterable_cols ascii_lib [ascii ''Class'', ascii ''Name'', ascii ''Math'']
     [(ascii ''Class'', FNum 0), (ascii ''Name'', FNum 0), (ascii ''Math'', FNum 1)]
   = [ascii ''Math'']"
  by (simp add: filterable_cols_def blocked_cols_def zero_sum_cols_def somes_def
        CANDIDATE_CLASS_COLS_def CANDIDATE_NO_COLS_def CANDIDATE_NAME_COLS_def lib_defs util_defs)

lemma no_number_mask:
  "apply_mask ascii_lib
     \<lparr>df_columns = [ascii ''Class'', ascii ''Name'', ascii ''Math''],
      df_rows = df_rows demo_frame_no_number\<rparr> (ascii ''Math'')
   = Inr \<lparr>df_columns = [ascii ''Class'', ascii ''Name'', ascii ''Math''],
          df_rows = [[PyObj 1, PyStr (ascii ''Kim''), PyObj 1]]\<rparr>"
  by (simp add: apply_mask_def col_cells_def demo_frame_no_number_def lib_defs util_defs dec_digits.simps)

lemma no_number_display_cols:
  "display_cols ascii_lib [ascii ''Class'', ascii ''Name'', ascii ''Math'']
     = [ascii ''Class'', ascii ''Name'']"
  by (simp add: display_cols_def or_default_def
        CANDIDATE_CLASS_COLS_def CANDIDATE_NO_COLS_def CANDIDATE_NAME_COLS_def lib_defs util_defs)

lemma no_number_view:
  "select_columns
     \<lparr>df_columns = [ascii ''Class'', ascii ''Name'', ascii ''Math''],
      df_rows = [[PyObj 1, PyStr (ascii ''Kim''), PyObj 1]]\<rparr>
     [ascii ''Class'', ascii ''Name'']
   = \<lparr>df_columns = [ascii ''Class'', ascii ''Name''],
      df_rows = [[PyObj 1, PyStr (ascii ''Kim'')]]\<rparr>"
  by (simp add: select_columns_def col_cells_def ascii_def)

lemma no_number_run:
  "run ascii_lib (demo_env [ascii ''w1.xlsx''] (Inr demo_frame_no_number)
                    (row174 [PyNone, PyNone, PyObj 1]) 0) =
     ([Makedirs DATA_DIR, Listdir DATA_DIR, SidebarHeader, SelectFile [ascii ''w1.xlsx''],
       ReadExcel (DATA_DIR @ ascii ''/'' @ ascii ''w1.xlsx''),
       LoadWorkbook (DATA_DIR @ ascii ''/'' @ ascii ''w1.xlsx''),
       SelectColumn [ascii ''Math''],
       Info (info_text ascii_lib (Some (ascii ''Math''))),
       Title (page_title ascii_lib (ascii ''w1.xlsx'') (Some (ascii ''Math''))),
       ShowFrame \<lparr>df_columns = [seq_label, ascii ''Class'', ascii ''Name''],
                  df_rows = [[XInt 1, XVal (PyObj 1), XVal (PyStr (ascii ''Kim''))]]\<rparr>
         285 True], Crashed IndexError)"
proof -
  let ?E = "demo_env [ascii ''w1.xlsx''] (Inr demo_frame_no_number) (row174 [PyNone, PyNone, PyObj 1]) 0"
  let ?cols = "[ascii ''Class'', ascii ''Name'', ascii ''Math'']"
  let ?one = "\<lparr>df_columns = ?cols, df_rows = [[PyObj 1, PyStr (ascii ''Kim''), PyObj 1]]\<rparr>"
  let ?view = "\<lparr>df_columns = [ascii ''Class'', ascii ''Name''],
      df_rows = [[PyObj 1, PyStr (ascii ''Kim'')]]\<rparr>"
  have pick: "selectbox [ascii ''Math''] (col_pick ?E) = Some (ascii ''Math'')"
    by (simp add: selectbox_def demo_env_def)
  have r: "run ascii_lib ?E =
     after [Makedirs DATA_DIR, Listdir DATA_DIR, SidebarHeader,
            SelectFile (excel_files_sorted ascii_lib (listdir ?E)),
            ReadExcel (DATA_DIR @ ascii ''/'' @ ascii ''w1.xlsx''),
            LoadWorkbook (DATA_DIR @ ascii ''/'' @ ascii ''w1.xlsx''),
            SelectColumn [ascii ''Math''], Info (info_text ascii_lib (Some (ascii ''Math''))),
            Title (page_title ascii_lib (ascii ''w1.xlsx'') (Some (ascii ''Math'')))]
       (stage_display ascii_lib (ascii ''w1.xlsx'') (ascii ''Math'') ?one)"
    by (rule run_to_display [OF demo_file_choice demo_read no_number_cols no_number_sum_map
          no_number_filterable _ pick no_number_mask]) simp
  have dc: "display_cols ascii_lib (df_columns ?one) = [ascii ''Class'', ascii ''Name'']"
    by (simp add: no_number_display_cols)
  have d1: "display_cols ascii_lib (df_columns ?one) \<noteq> []"
    unfolding dc by simp
  have d2: "seq_label \<notin> set (display_cols ascii_lib (df_columns ?one))"
    unfolding dc by (simp add: seq_label_def ascii_def)
  have v: "select_columns ?one (display_cols ascii_lib (df_columns ?one)) = ?view"
    unfolding dc by (rule no_number_view)
  have "\<exists>row \<in> set (df_rows ?view). length row < 3" by simp
  then have e: "stage_export ascii_lib (ascii ''w1.xlsx'') (ascii ''Math'') ?view = ([], Crashed IndexError)"
    by (rule stage_export_fail)
  show ?thesis
    unfolding r stage_display_normal [OF d1 d2] v e
    by (simp add: after_def demo_files upt_conv_Cons)
qed

text \<open>
  Claim C4 at the failing input. For a view of two columns and one row,
  \<open>build_formatted_excel\<close> raises \<open>IndexError\<close> instead of producing a workbook; and
  the script reaches that call on a roster that has a class and a name column but no
  number column: the preview is shown, then the run ends with the exception and offers
  no download.
\<close>

theorem export_raises_on_two_columns:
  "build_formatted_excel ascii_lib
       \<lparr>df_columns = [ascii ''Class'', ascii ''Name''],
        df_rows = [[PyObj 1, PyStr (ascii ''Kim'')]]\<rparr> (ascii ''w1.xlsx'') (ascii ''Math'')
     = Inl IndexError
   \<and> snd (run ascii_lib (demo_env [ascii ''w1.xlsx''] (Inr demo_frame_no_number)
                           (row174 [PyNone, PyNone, PyObj 1]) 0)) = Crashed IndexError
   \<and> downloads (fst (run ascii_lib (demo_env [ascii ''w1.xlsx''] (Inr demo_frame_no_number)
                           (row174 [PyNone, PyNone, PyObj 1]) 0))) = []"
proof -
  have "\<exists>row \<in> set (df_rows \<lparr>df_columns = [ascii ''Class'', ascii ''Name''],
        df_rows = [[PyObj (1::int), PyStr (ascii ''Kim'')]]\<rparr>). length row < 3" by simp
  then have "build_formatted_excel ascii_lib
       \<lparr>df_columns = [ascii ''Class'', ascii ''Name''],
        df_rows = [[PyObj 1, PyStr (ascii ''Kim'')]]\<rparr> (ascii ''w1.xlsx'') (ascii ''Math'')
     = Inl IndexError" by (rule build_formatted_excel_fail)
  then show ?thesis unfolding no_number_run by simp
qed

section \<open>Columns with equal labels\<close>

text \<open>
  The roster with the header cells \<open>Math\<close> and \<open>Math \<close>: both labels are \<open>Math\<close>
  once stripped, and row 174 holds 0 under the first and 3 under the second.
\<close>

lemma dup_cols:
  "strip_labels ascii_lib demo_frame_dup
     = \<lparr>df_columns = [ascii ''Math'', ascii ''Math''], df_rows = df_rows demo_frame_dup\<rparr>"
  by (simp add: strip_labels_def demo_frame_dup_def lib_defs util_defs)

lemma dup_sum_map:
  "read_excel_row_values_for_headers ascii_lib
     (load_workbook (demo_env names loaded (row174 demo_sums_dup) pick)) p
     SHEET_NAME USECOLS_RANGE TARGET_SUM_ROW [ascii ''Math'', ascii ''Math'']
   = Inr [(ascii ''Math'', FNum 3)]"
proof -
  have u: "[0 ..< min (length [ascii ''Math'', ascii ''Math'']) 33] = [0, 1]"
    by (simp add: upt_conv_Cons)
  show ?thesis
    unfolding demo_row_values u
    by (simp add: row174_def demo_sums_dup_def to_float_or_zero_def lib_defs util_defs
          dec_digits.simps)
qed

lemma dup_offered:
  "offered_cols ascii_lib [ascii ''Math'', ascii ''Math''] [(ascii ''Math'', FNum 3)]
     = [ascii ''Math'', ascii ''Math'']"
  by (simp add: offered_cols_def filterable_cols_def blocked_cols_def zero_sum_cols_def somes_def
        CANDIDATE_CLASS_COLS_def CANDIDATE_NO_COLS_def CANDIDATE_NAME_COLS_def lib_defs util_defs)

lemma dup_filterable:
  "filterable_cols ascii_lib [ascii ''Math'', ascii ''Math''] [(ascii ''Math'', FNum 3)]
     = [ascii ''Math'', ascii ''Math'']"
  by (simp add: filterable_cols_def blocked_cols_def zero_sum_cols_def somes_def
        CANDIDATE_CLASS_COLS_def CANDIDATE_NO_COLS_def CANDIDATE_NAME_COLS_def lib_defs util_defs)

lemma dup_mask:
  "apply_mask ascii_lib
     \<lparr>df_columns = [ascii ''Math'', ascii ''Math''], df_rows = rows\<rparr> (ascii ''Math'')
   = Inl ValueError"
  by (simp add: apply_mask_def)

lemma dup_run:
  "run ascii_lib (demo_env [ascii ''w1.xlsx''] (Inr demo_frame_dup) (row174 demo_sums_dup) 0) =
     ([Makedirs DATA_DIR, Listdir DATA_DIR, SidebarHeader, SelectFile [ascii ''w1.xlsx''],
       ReadExcel (DATA_DIR @ ascii ''/'' @ ascii ''w1.xlsx''),
       LoadWorkbook (DATA_DIR @ ascii ''/'' @ ascii ''w1.xlsx''),
       SelectColumn [ascii ''Math'', ascii ''Math''],
       Info (info_text ascii_lib (Some (ascii ''Math''))),
       Title (page_title ascii_lib (ascii ''w1.xlsx'') (Some (ascii ''Math'')))],
      Crashed ValueError)"
proof -
  let ?E = "demo_env [ascii ''w1.xlsx''] (Inr demo_frame_dup) (row174 demo_sums_dup) 0"
  let ?p = "DATA_DIR @ ascii ''/'' @ ascii ''w1.xlsx''"
  have r: "run ascii_lib ?E = after [Makedirs DATA_DIR, Listdir DATA_DIR, SidebarHeader,
               SelectFile (excel_files_sorted ascii_lib (listdir ?E)), ReadExcel ?p]
              (stage_columns ascii_lib ?E (ascii ''w1.xlsx'') ?p demo_frame_dup)"
    by (rule run_loaded [OF demo_file_choice demo_read])
  have m: "read_excel_row_values_for_headers ascii_lib (load_workbook ?E) ?p SHEET_NAME
       USECOLS_RANGE TARGET_SUM_ROW (df_columns (strip_labels ascii_lib demo_frame_dup))
     = Inr [(ascii ''Math'', FNum 3)]"
    unfolding dup_cols by (simp add: dup_sum_map)
  have pick: "selectbox [ascii ''Math'', ascii ''Math''] (col_pick ?E) = Some (ascii ''Math'')"
    by (simp add: selectbox_def demo_env_def)
  have f: "stage_filter ascii_lib ?E (ascii ''w1.xlsx'')
        \<lparr>df_columns = [ascii ''Math'', ascii ''Math''], df_rows = df_rows demo_frame_dup\<rparr>
        [ascii ''Math'', ascii ''Math'']
      = ([SelectColumn [ascii ''Math'', ascii ''Math''],
          Info (info_text ascii_lib (Some (ascii ''Math''))),
          Title (page_title ascii_lib (ascii ''w1.xlsx'') (Some (ascii ''Math'')))],
         Crashed ValueError)"
    by (simp add: stage_filter_def Let_def pick dup_mask after_def)
  show ?thesis
    unfolding r stage_columns_ok [OF m] dup_cols
    by (simp add: dup_filterable dup_offered f after_def demo_files)
qed

text \<open>
  Claim C8 at a roster with two header cells that differ only by a trailing blank,
  \<open>Math\<close> over a column nobody applied for and \<open>Math \<close> over a column three students
  applied for. Both labels are \<open>Math\<close> after stripping. The cell of the first column
  in row 174 converts to \<open>0.0\<close>, yet the dictionary of row 174 holds the one entry
  of \<open>Math\<close> with the value of the second column, so the select box offers both
  columns and no warning is shown. (The run then ends in the \<open>ValueError\<close> of the
  filter, since the chosen label names two columns.)
\<close>

theorem zero_sum_column_offered_under_equal_labels:
  "to_float_or_zero ascii_lib (row174 demo_sums_dup TARGET_SUM_ROW 1) = FNum 0
   \<and> df_columns (strip_labels ascii_lib demo_frame_dup) = [ascii ''Math'', ascii ''Math'']
   \<and> read_excel_row_values_for_headers ascii_lib
        (load_workbook (demo_env [ascii ''w1.xlsx''] (Inr demo_frame_dup) (row174 demo_sums_dup) 0))
        (DATA_DIR @ ascii ''/'' @ ascii ''w1.xlsx'') SHEET_NAME USECOLS_RANGE TARGET_SUM_ROW
        [ascii ''Math'', ascii ''Math'']
      = Inr [(ascii ''Math'', FNum 3)]
   \<and> run ascii_lib (demo_env [ascii ''w1.xlsx''] (Inr demo_frame_dup) (row174 demo_sums_dup) 0) =
     ([Makedirs DATA_DIR, Listdir DATA_DIR, SidebarHeader, SelectFile [ascii ''w1.xlsx''],
       ReadExcel (DATA_DIR @ ascii ''/'' @ ascii ''w1.xlsx''),
       LoadWorkbook (DATA_DIR @ ascii ''/'' @ ascii ''w1.xlsx''),
       SelectColumn [ascii ''Math'', ascii ''Math''],
       Info (info_text ascii_lib (Some (ascii ''Math''))),
       Title (page_title ascii_lib (ascii ''w1.xlsx'') (Some (ascii ''Math'')))],
      Crashed ValueError)"
proof (intro conjI)
  show "to_float_or_zero ascii_lib (row174 demo_sums_dup TARGET_SUM_ROW 1) = FNum 0"
    by (simp add: sheet_defs demo_sums_dup_def lib_defs util_defs dec_digits.simps)
  show "df_columns (strip_labels ascii_lib demo_frame_dup) = [ascii ''Math'', ascii ''Math'']"
    by (simp add: dup_cols)
  show "read_excel_row_values_for_headers ascii_lib
        (load_workbook (demo_env [ascii ''w1.xlsx''] (Inr demo_frame_dup) (row174 demo_sums_dup) 0))
        (DATA_DIR @ ascii ''/'' @ ascii ''w1.xlsx'') SHEET_NAME USECOLS_RANGE TARGET_SUM_ROW
        [ascii ''Math'', ascii ''Math'']
      = Inr [(ascii ''Math'', FNum 3)]"
    by (rule dup_sum_map)
  show "run ascii_lib (demo_env [ascii ''w1.xlsx''] (Inr demo_frame_dup) (row174 demo_sums_dup) 0) =
     ([Makedirs DATA_DIR, Listdir DATA_DIR, SidebarHeader, SelectFile [ascii ''w1.xlsx''],
       ReadExcel (DATA_DIR @ ascii ''/'' @ ascii ''w1.xlsx''),
       LoadWorkbook (DATA_DIR @ ascii ''/'' @ ascii ''w1.xlsx''),
       SelectColumn [ascii ''Math'', ascii ''Math''],
       Info (info_text ascii_lib (Some (ascii ''Math''))),
       Title (page_title ascii_lib (ascii ''w1.xlsx'') (Some (ascii ''Math'')))],
      Crashed ValueError)"
    by (rule dup_run)
qed

section \<open>The marked rows\<close>



















end
